theory Spec2Isabelle
  imports Complex_Main "HOL-Library.Sublist" "HOL-Library.Log_Nat"
begin

section \<open>Text primitives\<close>

text \<open>
  Python strings are modelled as HOL strings whose characters are read as ASCII code
  points. The functions below embed the \<open>str\<close> methods and operators that the agent
  uses: \<open>lower\<close>, \<open>strip\<close>, \<open>split\<close> without argument, \<open>startswith\<close>, \<open>title\<close> and the
  substring test \<open>a in b\<close>. Characters outside ASCII are carried through unchanged and
  count as neither letters, digits nor whitespace.
\<close>

definition is_upper :: "char \<Rightarrow> bool" where
  "is_upper c = (65 \<le> (of_char c :: nat) \<and> (of_char c :: nat) \<le> 90)"

definition is_lower :: "char \<Rightarrow> bool" where
  "is_lower c = (97 \<le> (of_char c :: nat) \<and> (of_char c :: nat) \<le> 122)"

definition is_digit :: "char \<Rightarrow> bool" where
  "is_digit c = (48 \<le> (of_char c :: nat) \<and> (of_char c :: nat) \<le> 57)"

definition is_alpha :: "char \<Rightarrow> bool" where
  "is_alpha c = (is_upper c \<or> is_lower c)"

text \<open>\<open>str.isspace\<close> on ASCII: tab, line feed, vertical tab, form feed, carriage
  return, the four separators 28 to 31, and the space.\<close>

definition is_space :: "char \<Rightarrow> bool" where
  "is_space c = ((9 \<le> (of_char c :: nat) \<and> (of_char c :: nat) \<le> 13)
                 \<or> (28 \<le> (of_char c :: nat) \<and> (of_char c :: nat) \<le> 32))"

text \<open>The class \<open>\w\<close> of the \<open>re\<close> module on ASCII text.\<close>

definition is_word :: "char \<Rightarrow> bool" where
  "is_word c = (is_alpha c \<or> is_digit c \<or> c = CHR ''_'')"

definition lower_char :: "char \<Rightarrow> char" where
  "lower_char c = (if is_upper c then char_of ((of_char c :: nat) + 32) else c)"

definition upper_char :: "char \<Rightarrow> char" where
  "upper_char c = (if is_lower c then char_of ((of_char c :: nat) - 32) else c)"

definition lower :: "string \<Rightarrow> string" where
  "lower s = map lower_char s"

definition strip :: "string \<Rightarrow> string" where
  "strip s = rev (dropWhile is_space (rev (dropWhile is_space s)))"

text \<open>\<open>s.split()\<close>: the maximal runs of non-whitespace characters, in order.\<close>

fun split_acc :: "string \<Rightarrow> string \<Rightarrow> string list" where
  "split_acc cur [] = (if cur = [] then [] else [cur])"
| "split_acc cur (c # cs) =
     (if is_space c
      then (if cur = [] then split_acc [] cs else cur # split_acc [] cs)
      else split_acc (cur @ [c]) cs)"

definition split :: "string \<Rightarrow> string list" where
  "split s = split_acc [] s"

definition startswith :: "string \<Rightarrow> string \<Rightarrow> bool" where
  "startswith s p = (take (length p) s = p)"

text \<open>\<open>str_in a b\<close> is Python's \<open>a in b\<close> on strings: \<open>a\<close> occurs in \<open>b\<close> as a
  contiguous block.\<close>

fun str_in :: "string \<Rightarrow> string \<Rightarrow> bool" where
  "str_in a [] = (a = [])"
| "str_in a (c # cs) = (startswith (c # cs) a \<or> str_in a cs)"

text \<open>\<open>any(word in text for word in words)\<close>.\<close>

definition any_in :: "string list \<Rightarrow> string \<Rightarrow> bool" where
  "any_in ws t = list_ex (\<lambda>w. str_in w t) ws"

text \<open>\<open>s.title()\<close>: a cased character is upper-cased when the character before it is
  not cased and lower-cased when it is.\<close>

fun title_acc :: "bool \<Rightarrow> string \<Rightarrow> string" where
  "title_acc prev [] = []"
| "title_acc prev (c # cs) =
     (if prev then lower_char c else upper_char c) # title_acc (is_alpha c) cs"

definition title :: "string \<Rightarrow> string" where
  "title s = title_acc False s"

section \<open>Regular expressions of the agent\<close>

text \<open>
  Every pattern of the intent table has one of two shapes: \<open>\bLIT\b\<close> or
  \<open>\bLIT.*LIT\b\<close>. \<open>re_search p t\<close> is the truth value of \<open>re.search(p, t)\<close>: some
  position of \<open>t\<close> starts a match. \<open>\b\<close> holds at a position when exactly one of the
  two neighbouring characters is a word character (outside the text counts as not a
  word character), and \<open>.\<close> matches every character but the line feed.
\<close>

datatype pattern = Lit string | Gap string string

definition word_at :: "string \<Rightarrow> nat \<Rightarrow> bool" where
  "word_at t p = (p < length t \<and> is_word (t ! p))"

definition boundary :: "string \<Rightarrow> nat \<Rightarrow> bool" where
  "boundary t p = ((0 < p \<and> word_at t (p - 1)) \<noteq> word_at t p)"

definition lit_at :: "string \<Rightarrow> nat \<Rightarrow> string \<Rightarrow> bool" where
  "lit_at t p l = (take (length l) (drop p t) = l)"

definition no_newline :: "string \<Rightarrow> nat \<Rightarrow> nat \<Rightarrow> bool" where
  "no_newline t i j = list_all (\<lambda>k. t ! k \<noteq> CHR 0x0A) [i..<j]"

fun match_at :: "pattern \<Rightarrow> string \<Rightarrow> nat \<Rightarrow> bool" where
  "match_at (Lit l) t i =
     (boundary t i \<and> lit_at t i l \<and> boundary t (i + length l))"
| "match_at (Gap a b) t i =
     (boundary t i \<and> lit_at t i a \<and>
      list_ex (\<lambda>j. no_newline t (i + length a) j \<and> lit_at t j b
                    \<and> boundary t (j + length b))
              [i + length a..<Suc (length t)])"

definition re_search :: "pattern \<Rightarrow> string \<Rightarrow> bool" where
  "re_search p t = list_ex (match_at p t) [0..<Suc (length t)]"

section \<open>Intent classification (agent/intent.py)\<close>

datatype IntentType = GREET | INQUIRY | HIGH_INTENT

definition greet_patterns :: "pattern list" where
  "greet_patterns =
     [Lit ''hi'', Lit ''hello'', Lit ''hey'', Lit ''howdy'', Lit ''greetings'',
      Lit ''good morning'', Lit ''good afternoon'', Lit ''good evening'']"

definition inquiry_patterns :: "pattern list" where
  "inquiry_patterns =
     [Lit ''price'', Lit ''pricing'', Lit ''plan'', Lit ''plans'', Lit ''features'',
      Lit ''cost'', Lit ''how much'', Gap ''what does'' ''cost'', Lit ''do you offer'',
      Lit ''what do you have'', Lit ''tell me about'', Lit ''information about'']"

definition high_intent_patterns :: "pattern list" where
  "high_intent_patterns =
     [Lit ''i want to try'', Lit ''sign up'', Lit ''signup'', Lit ''buy'',
      Lit ''purchase'', Lit ''order'', Lit ''get started'', Lit ''start trial'',
      Lit ''free trial'', Lit ''use for youtube'', Gap ''use for'' ''video'',
      Lit ''my youtube'', Lit ''my instagram'', Lit ''my tiktok'', Lit ''my facebook'',
      Lit ''my linkedin'', Lit ''for my youtube'', Lit ''for my instagram'',
      Lit ''for my tiktok'', Lit ''ready to buy'', Lit ''want to purchase'',
      Lit ''interested in'', Lit ''ready to start'', Lit (''let'' @ [CHR 0x27] @ ''s start''),
      Lit ''create account'', Lit ''register'']"

text \<open>The pattern table in the order the dictionary was filled.\<close>

definition intent_patterns :: "(IntentType \<times> pattern list) list" where
  "intent_patterns =
     [(GREET, greet_patterns), (INQUIRY, inquiry_patterns),
      (HIGH_INTENT, high_intent_patterns)]"

definition any_match :: "pattern list \<Rightarrow> string \<Rightarrow> bool" where
  "any_match ps t = list_ex (\<lambda>p. re_search p t) ps"

text \<open>The second loop of \<open>classify_intent\<close>: the groups in table order, the
  \<open>HIGH_INTENT\<close> group skipped, the first group with a matching pattern returned.\<close>

fun other_intents :: "(IntentType \<times> pattern list) list \<Rightarrow> string \<Rightarrow> IntentType option" where
  "other_intents [] t = None"
| "other_intents ((it, ps) # rest) t =
     (if it = HIGH_INTENT then other_intents rest t
      else if any_match ps t then Some it
      else other_intents rest t)"

definition exact_inquiries :: "string list" where
  "exact_inquiries = [''yes'', ''yes tell me'', ''ok'', ''okay'']"

definition classify_intent :: "string \<Rightarrow> IntentType" where
  "classify_intent text =
     (let text_lower = lower text in
      if text_lower \<in> set exact_inquiries then INQUIRY
      else if any_match high_intent_patterns text_lower then HIGH_INTENT
      else (case other_intents intent_patterns text_lower of
              Some it \<Rightarrow> it
            | None \<Rightarrow> GREET))"

text \<open>
  \<open>extract_entities\<close> fills a dictionary; the four \<open>if\<close>/\<open>elif\<close> chains run one
  after the other on the same lower-cased text.
\<close>

definition extract_entities :: "string \<Rightarrow> (string \<rightharpoonup> string)" where
  "extract_entities text =
     (let text_lower = lower text;
          e0 = Map.empty;
          e1 = (if any_in [''price'', ''pricing'', ''cost''] text_lower
                then e0(''topic'' \<mapsto> ''pricing'') else e0);
          e2 = (if str_in ''basic'' text_lower then e1(''plan'' \<mapsto> ''basic'')
                else if str_in ''pro'' text_lower then e1(''plan'' \<mapsto> ''pro'')
                else e1);
          e3 = (if str_in ''video'' text_lower then e2(''feature'' \<mapsto> ''video'')
                else if str_in ''resolution'' text_lower then e2(''feature'' \<mapsto> ''resolution'')
                else if str_in ''captions'' text_lower then e2(''feature'' \<mapsto> ''captions'')
                else e2);
          e4 = (if any_in [''buy'', ''purchase'', ''order''] text_lower
                then e3(''action'' \<mapsto> ''purchase'')
                else if any_in [''try'', ''trial'', ''start''] text_lower
                then e3(''action'' \<mapsto> ''trial'')
                else e3)
      in e4)"

section \<open>Knowledge retrieval (agent/rag.py)\<close>

text \<open>
  The knowledge base is the value \<open>json.load\<close> returned: a dictionary, given here by
  its \<open>items()\<close> in order, whose values are JSON values. An object is the list of its
  items, whose keys are distinct in a loaded dictionary. A float is given by its
  \<open>repr\<close>. \<open>type_name\<close> is the name of the Python type of a loaded value, as error
  messages print it.
\<close>

datatype json = JNull | JBool bool | JInt int | JFloat string | JStr string
  | JArr "json list" | JObj "(string \<times> json) list"

definition type_name :: "json \<Rightarrow> string" where
  "type_name j = (case j of JNull \<Rightarrow> ''NoneType'' | JBool b \<Rightarrow> ''bool'' | JInt i \<Rightarrow> ''int''
                  | JFloat f \<Rightarrow> ''float'' | JStr v \<Rightarrow> ''str'' | JArr xs \<Rightarrow> ''list''
                  | JObj kvs \<Rightarrow> ''dict'')"

subsection \<open>Floating-point scores\<close>

text \<open>
  The scores are Python floats: IEEE 754 doubles, here the rationals they denote. A
  sum is the exact sum rounded to the nearest double, to the even mantissa on a tie;
  \<open>to_double\<close> is this rounding to 53 bits and \<open>fadd\<close> the addition. A decimal
  literal of the source denotes the double nearest to it. The scores stay far from the
  largest and the smallest double, so the exponent range is left out.
\<close>

definition pow2 :: "int \<Rightarrow> rat" where
  "pow2 k = (if 0 \<le> k then 2 ^ nat k else 1 / 2 ^ nat (- k))"

text \<open>The integer \<open>e\<close> with \<open>2^e \<le> x < 2^(e+1)\<close>, for a positive \<open>x\<close>.\<close>

definition binary_exponent :: "rat \<Rightarrow> int" where
  "binary_exponent x =
     (case quotient_of x of (a, b) \<Rightarrow>
        (let k = bitlen a - bitlen b in if pow2 k \<le> x then k else k - 1))"

definition round_half_even :: "rat \<Rightarrow> int" where
  "round_half_even q =
     (let f = \<lfloor>q\<rfloor>; r = q - of_int f in
      if r < 1 / 2 then f
      else if 1 / 2 < r then f + 1
      else if even f then f else f + 1)"

definition round_positive :: "rat \<Rightarrow> rat" where
  "round_positive x =
     (let u = pow2 (binary_exponent x - 52) in of_int (round_half_even (x / u)) * u)"

definition to_double :: "rat \<Rightarrow> rat" where
  "to_double x = (if x = 0 then 0 else if x < 0 then - round_positive (- x)
                  else round_positive x)"

definition fadd :: "rat \<Rightarrow> rat \<Rightarrow> rat" where
  "fadd x y = to_double (x + y)"

subsection \<open>Relevance gate and score\<close>

record KnowledgeEntry =
  key :: string
  content :: string
  full_data :: json
  relevance_score :: rat

definition pricing_keywords :: "string list" where
  "pricing_keywords = [''price'', ''pricing'', ''cost'', ''plan'', ''plans'', ''basic'', ''pro'']"

definition policy_keywords :: "string list" where
  "policy_keywords = [''refund'', ''support'', ''policy'', ''policies'']"

text \<open>\<open>any(word in s for word in query.split())\<close>.\<close>

definition any_word_in :: "string \<Rightarrow> string \<Rightarrow> bool" where
  "any_word_in query s = list_ex (\<lambda>word. str_in word s) (split query)"

text \<open>\<open>if sub_key:\<close> holds of a sub-key that is neither \<open>None\<close> nor the empty string.\<close>

definition is_relevant_to_query :: "string \<Rightarrow> string \<Rightarrow> string option \<Rightarrow> json \<Rightarrow> bool" where
  "is_relevant_to_query query main_key sub_key val =
     (if any_in pricing_keywords query \<and> main_key = ''pricing'' then True
      else if any_in policy_keywords query \<and> main_key = ''policies'' then True
      else if (case sub_key of
                 None \<Rightarrow> False
               | Some sk \<Rightarrow> sk \<noteq> [] \<and>
                   (str_in (lower sk) query \<or> any_word_in query (lower sk))) then True
      else (case val of
              JStr v \<Rightarrow> any_word_in query (lower v)
            | _ \<Rightarrow> False))"

text \<open>The loops \<open>for word in query_words: if word in s: score += d\<close>, over the set of
  the query's words (each distinct word once; every step adds the same \<open>d\<close>, so the
  order in which the set is traversed does not matter).\<close>

definition add_per_word :: "rat \<Rightarrow> string list \<Rightarrow> string \<Rightarrow> rat \<Rightarrow> rat" where
  "add_per_word d ws s score =
     fold (\<lambda>word sc. if str_in word s then fadd sc d else sc) ws score"

definition calculate_relevance :: "string \<Rightarrow> string \<Rightarrow> string option \<Rightarrow> json \<Rightarrow> rat" where
  "calculate_relevance query main_key sub_key val =
     (let query_words = remdups (split query) in
      if query_words = [] then 0
      else
        let s0 = 0;
            s1 = (case sub_key of
                    None \<Rightarrow> s0
                  | Some sk \<Rightarrow>
                      if sk = [] then s0
                      else add_per_word (to_double (3 / 10)) query_words (lower sk)
                             (if str_in (lower sk) query then fadd s0 (to_double (8 / 10))
                              else s0));
            s2 = (if str_in (lower main_key) query then fadd s1 (to_double (5 / 10)) else s1);
            s3 = (case val of
                    JStr v \<Rightarrow> add_per_word (to_double (2 / 10)) query_words (lower v) s2
                  | _ \<Rightarrow> s2)
        in min s3 1)"

definition sub_entry :: "(json \<Rightarrow> string) \<Rightarrow> string \<Rightarrow> string \<Rightarrow> string \<Rightarrow> json \<Rightarrow> KnowledgeEntry" where
  "sub_entry dumps query_lower k sub_key sub_value =
     \<lparr>key = k @ ''.'' @ sub_key,
      content = (case sub_value of JStr v \<Rightarrow> v | _ \<Rightarrow> dumps sub_value),
      full_data = sub_value,
      relevance_score = calculate_relevance query_lower k (Some sub_key) sub_value\<rparr>"

definition top_entry :: "string \<Rightarrow> string \<Rightarrow> string \<Rightarrow> KnowledgeEntry" where
  "top_entry query_lower k v =
     \<lparr>key = k, content = v, full_data = JStr v,
      relevance_score = calculate_relevance query_lower k None (JStr v)\<rparr>"

text \<open>The entries one top-level item contributes, in the order they are appended.\<close>

definition item_entries :: "(json \<Rightarrow> string) \<Rightarrow> string \<Rightarrow> string \<times> json \<Rightarrow> KnowledgeEntry list" where
  "item_entries dumps query_lower kv =
     (case kv of (k, val) \<Rightarrow>
        (case val of
           JObj subs \<Rightarrow>
             map (\<lambda>(sub_key, sub_value). sub_entry dumps query_lower k sub_key sub_value)
               (filter (\<lambda>(sub_key, sub_value).
                  is_relevant_to_query query_lower k (Some sub_key) sub_value) subs)
         | JStr v \<Rightarrow>
             (if is_relevant_to_query query_lower k None (JStr v)
              then [top_entry query_lower k v] else [])
         | _ \<Rightarrow> []))"

text \<open>\<open>relevant_items\<close> as it stands when the traversal ends, before it is sorted.\<close>

definition relevant_items :: "(json \<Rightarrow> string) \<Rightarrow> (string \<times> json) list \<Rightarrow> string \<Rightarrow> KnowledgeEntry list" where
  "relevant_items dumps knowledge_data query =
     concat (map (item_entries dumps (lower query)) knowledge_data)"

text \<open>\<open>xs.sort(key=f, reverse=True)\<close> is a stable sort on descending keys.\<close>

definition sort_reverse :: "('a \<Rightarrow> rat) \<Rightarrow> 'a list \<Rightarrow> 'a list" where
  "sort_reverse f xs = sort_key (\<lambda>x. - f x) xs"

text \<open>The slice \<open>xs[:n]\<close> for a Python integer \<open>n\<close>: a negative \<open>n\<close> counts from the
  end.\<close>

definition slice_to :: "int \<Rightarrow> 'a list \<Rightarrow> 'a list" where
  "slice_to n xs = (if 0 \<le> n then take (nat n) xs else take (length xs - nat (- n)) xs)"

definition retrieve_relevant_info ::
  "(json \<Rightarrow> string) \<Rightarrow> (string \<times> json) list \<Rightarrow> string \<Rightarrow> int \<Rightarrow> KnowledgeEntry list" where
  "retrieve_relevant_info dumps knowledge_data query max_results =
     slice_to max_results (sort_reverse relevance_score (relevant_items dumps knowledge_data query))"

subsection \<open>The answer (RAGEngine)\<close>

text \<open>
  \<open>json.dumps\<close>, \<open>json.dumps\<close> with \<open>indent=2\<close> and \<open>str\<close> on a loaded value are parameters
  \<open>dumps\<close>, \<open>dumps2\<close> and \<open>to_str\<close>; they return for every loaded value. A function of
  the engine that may raise returns \<open>Inl\<close> of the exception's text or \<open>Inr\<close> of its
  result.
\<close>

definition intent_value :: "IntentType \<Rightarrow> string" where
  "intent_value i = (case i of GREET \<Rightarrow> ''GREET'' | INQUIRY \<Rightarrow> ''INQUIRY''
                     | HIGH_INTENT \<Rightarrow> ''HIGH_INTENT'')"

fun join :: "string \<Rightarrow> string list \<Rightarrow> string" where
  "join sep [] = []"
| "join sep [x] = x"
| "join sep (x # y # ys) = x @ sep @ join sep (y # ys)"

definition build_context :: "KnowledgeEntry list \<Rightarrow> IntentType option \<Rightarrow> string" where
  "build_context relevant_info intent_opt =
     join [CHR 0x0A]
       ((case intent_opt of None \<Rightarrow> [] | Some i \<Rightarrow> [''Intent: '' @ intent_value i])
        @ map (\<lambda>item. key item @ '': '' @ content item) relevant_info)"

text \<open>A loaded value inside an f-string: a string stands for itself.\<close>

definition fstr :: "(json \<Rightarrow> string) \<Rightarrow> json \<Rightarrow> string" where
  "fstr to_str j = (case j of JStr v \<Rightarrow> v | _ \<Rightarrow> to_str j)"

text \<open>The decimal digits of a natural number.\<close>

fun show_nat :: "nat \<Rightarrow> string" where
  "show_nat n = (if n < 10 then [char_of (48 + n)]
                 else show_nat (n div 10) @ [char_of (48 + n mod 10)])"

text \<open>\<open>', '.join(features)\<close> raises \<open>TypeError\<close> at the first item that is not a
  string.\<close>

fun first_non_str :: "nat \<Rightarrow> json list \<Rightarrow> (nat \<times> json) option" where
  "first_non_str i [] = None"
| "first_non_str i (x # xs) =
     (case x of JStr v \<Rightarrow> first_non_str (Suc i) xs | _ \<Rightarrow> Some (i, x))"

definition str_value :: "json \<Rightarrow> string" where
  "str_value j = (case j of JStr v \<Rightarrow> v | _ \<Rightarrow> [])"

definition join_features :: "json list \<Rightarrow> string + string" where
  "join_features xs =
     (case first_non_str 0 xs of
        Some (i, x) \<Rightarrow>
          Inl (''sequence item '' @ show_nat i @ '': expected str instance, ''
               @ type_name x @ '' found'')
      | None \<Rightarrow> Inr (join '', '' (map str_value xs)))"

text \<open>The three optional lines \<open>Price\<close>, \<open>Videos\<close>, \<open>Resolution\<close> of a plan.\<close>

definition plan_line :: "(json \<Rightarrow> string) \<Rightarrow> (string \<times> json) list \<Rightarrow> string \<Rightarrow> string \<Rightarrow> string list" where
  "plan_line to_str plan_data k label =
     (case map_of plan_data k of
        None \<Rightarrow> []
      | Some v \<Rightarrow> [label @ '': '' @ fstr to_str v])"

definition format_plan_info :: "(json \<Rightarrow> string) \<Rightarrow> string \<Rightarrow> json \<Rightarrow> string + string" where
  "format_plan_info to_str plan_name plan_data =
     (case plan_data of
        JObj kvs \<Rightarrow>
          (let parts = [plan_name @ '' Plan:'']
                       @ plan_line to_str kvs ''price'' ''Price''
                       @ plan_line to_str kvs ''videos'' ''Videos''
                       @ plan_line to_str kvs ''resolution'' ''Resolution''
           in case map_of kvs ''features'' of
                None \<Rightarrow> Inr (join [CHR 0x0A] parts)
              | Some (JArr features) \<Rightarrow>
                  (case join_features features of
                     Inl e \<Rightarrow> Inl e
                   | Inr joined \<Rightarrow> Inr (join [CHR 0x0A] (parts @ [''Features: '' @ joined])))
              | Some features \<Rightarrow>
                  Inr (join [CHR 0x0A] (parts @ [''Features: '' @ fstr to_str features])))
      | _ \<Rightarrow> Inr (plan_name @ '': '' @ fstr to_str plan_data))"

text \<open>\<open>s.split(sep)\<close> for a separator of one character.\<close>

fun split_on_acc :: "char \<Rightarrow> string \<Rightarrow> string \<Rightarrow> string list" where
  "split_on_acc sep cur [] = [cur]"
| "split_on_acc sep cur (c # cs) =
     (if c = sep then cur # split_on_acc sep [] cs else split_on_acc sep (cur @ [c]) cs)"

definition split_on :: "char \<Rightarrow> string \<Rightarrow> string list" where
  "split_on sep s = split_on_acc sep [] s"

text \<open>\<open>key.split('.')[1]\<close>, which raises \<open>IndexError\<close> when there is no second
  piece.\<close>

definition second_piece :: "string \<Rightarrow> string + string" where
  "second_piece k =
     (case split_on CHR ''.'' k of
        a # b # rest \<Rightarrow> Inr b
      | _ \<Rightarrow> Inl ''list index out of range'')"

text \<open>The body of the loop of \<open>_generate_llm_response\<close> for one entry.\<close>

definition format_item :: "(json \<Rightarrow> string) \<Rightarrow> (json \<Rightarrow> string) \<Rightarrow> KnowledgeEntry \<Rightarrow> string + string" where
  "format_item dumps2 to_str item =
     (let k = key item; data = full_data item in
      if str_in ''pricing'' k then
        (if CHR ''.'' \<in> set k
         then (case second_piece k of
                 Inl e \<Rightarrow> Inl e
               | Inr plan_name \<Rightarrow> format_plan_info to_str plan_name data)
         else Inr (''Pricing information: '' @ dumps2 data))
      else if str_in ''policies'' k then
        (if CHR ''.'' \<in> set k
         then (case second_piece k of
                 Inl e \<Rightarrow> Inl e
               | Inr policy_type \<Rightarrow> Inr (title policy_type @ '': '' @ fstr to_str data))
         else Inr (''Policies: '' @ dumps2 data))
      else Inr (k @ '': '' @ fstr to_str data))"

fun format_items :: "(json \<Rightarrow> string) \<Rightarrow> (json \<Rightarrow> string) \<Rightarrow> KnowledgeEntry list \<Rightarrow> string + string list" where
  "format_items dumps2 to_str [] = Inr []"
| "format_items dumps2 to_str (item # items) =
     (case format_item dumps2 to_str item of
        Inl e \<Rightarrow> Inl e
      | Inr part \<Rightarrow>
          (case format_items dumps2 to_str items of
             Inl e \<Rightarrow> Inl e
           | Inr parts \<Rightarrow> Inr (part # parts)))"

definition generate_llm_response ::
  "(json \<Rightarrow> string) \<Rightarrow> (json \<Rightarrow> string) \<Rightarrow> string \<Rightarrow> KnowledgeEntry list \<Rightarrow> string + string" where
  "generate_llm_response dumps2 to_str query relevant_info =
     (if relevant_info = []
      then Inr (''I don'' @ [CHR 0x27] @ ''t have specific information about '' @ [CHR 0x27]
                @ query @ [CHR 0x27] @ '' in my knowledge base.'')
      else (case format_items dumps2 to_str relevant_info of
              Inl e \<Rightarrow> Inl e
            | Inr response_parts \<Rightarrow>
                (case response_parts of
                   [part] \<Rightarrow> Inr part
                 | _ \<Rightarrow> Inr (join [CHR 0x0A, CHR 0x0A] response_parts))))"

record RagResult =
  rag_response :: string
  rag_context :: string
  rag_sources :: "string list"
  rag_data_used :: "string \<rightharpoonup> json"

definition rag_generate_response ::
  "(json \<Rightarrow> string) \<Rightarrow> (json \<Rightarrow> string) \<Rightarrow> (json \<Rightarrow> string) \<Rightarrow> (string \<times> json) list
   \<Rightarrow> string \<Rightarrow> IntentType option \<Rightarrow> string + RagResult" where
  "rag_generate_response dumps dumps2 to_str knowledge_data query intent_opt =
     (let relevant_info = retrieve_relevant_info dumps knowledge_data query 5;
          ctx = build_context relevant_info intent_opt
      in case generate_llm_response dumps2 to_str query relevant_info of
           Inl e \<Rightarrow> Inl e
         | Inr resp \<Rightarrow>
             Inr \<lparr>rag_response = resp,
                  rag_context = ctx,
                  rag_sources = map key relevant_info,
                  rag_data_used =
                    map_of (rev (map (\<lambda>item. (key item, full_data item)) relevant_info))\<rparr>)"

section \<open>The dialogue state machine and the turn (agent/graph.py)\<close>

text \<open>
  \<open>qualification_stage\<close> and \<open>intent\<close> are strings in the source; the program writes
  only the five stage literals and the three intent values into them, which are the
  constructors here. The \<open>context\<close> (field \<open>state_context\<close>) and \<open>metadata\<close>
  are dictionaries; each key the program
  writes is an optional field. The key \<open>tool_result\<close> is read by \<open>_generate_response\<close>
  and written nowhere, so the read always yields the default \<open>{}\<close>.
\<close>

datatype stage = initial | asking_name | asking_email | asking_platform | completed

type_synonym lead_call = "string option \<times> string option \<times> string option"

datatype history_entry =
    UserEntry string string
  | AgentEntry string string "IntentType option" stage

record Context =
  entities :: "(string \<rightharpoonup> string) option"
  retrieved_knowledge :: "string option"
  sources :: "string list option"
  lead_captured :: "(lead_call \<times> string) option"

record Metadata =
  execution_time :: "string option"
  nodes_executed :: "string list option"
  error :: "string option"

record WorkflowState =
  user_input :: string
  intent :: "IntentType option"
  state_context :: Context
  tools_used :: "string list"
  response :: "string option"
  metadata :: Metadata
  name :: "string option"
  email :: "string option"
  platform :: "string option"
  conversation_history :: "history_entry list"
  qualification_stage :: stage

text \<open>\<open>WorkflowState(user_input=u)\<close> after \<open>__post_init__\<close>.\<close>

definition new_state :: "string \<Rightarrow> WorkflowState" where
  "new_state u =
     \<lparr>user_input = u, intent = None,
      state_context = \<lparr>entities = None, retrieved_knowledge = None, sources = None,
                 lead_captured = None\<rparr>,
      tools_used = [], response = None,
      metadata = \<lparr>execution_time = None, nodes_executed = None, error = None\<rparr>,
      name = None, email = None, platform = None,
      conversation_history = [], qualification_stage = initial\<rparr>"

text \<open>
  What a turn finds outside the state: the loaded knowledge base, \<open>json.dumps\<close> without
  and with indentation, \<open>str\<close> on loaded values, the clock, and the lead capture
  function, which returns \<open>None\<close> when it returns and \<open>Some msg\<close> when it raises an
  exception whose text is \<open>msg\<close>. One clock reading stands for the readings of a turn,
  and one loaded knowledge base for the loads of a turn.
\<close>

record Env =
  knowledge_data :: "(string \<times> json) list"
  dumps :: "json \<Rightarrow> string"
  dumps_indent :: "json \<Rightarrow> string"
  py_str :: "json \<Rightarrow> string"
  now :: string
  lead_capture :: "string option \<Rightarrow> string option \<Rightarrow> string option \<Rightarrow> string option"

text \<open>\<open>mock_lead_capture\<close> of \<open>lead_capture.py\<close> prints and returns.\<close>

definition mock_lead_capture :: "string option \<Rightarrow> string option \<Rightarrow> string option \<Rightarrow> string option" where
  "mock_lead_capture n e p = None"

text \<open>A node function that may raise yields the state as it stands when it returns or
  raises; the calls of the capture function it made come with it.\<close>

datatype outcome = Normal WorkflowState | Raise string WorkflowState

text \<open>Truth value of an optional string in a condition: neither \<open>None\<close> nor empty.\<close>

definition truthy :: "string option \<Rightarrow> bool" where
  "truthy x = (case x of None \<Rightarrow> False | Some s \<Rightarrow> s \<noteq> [])"

text \<open>An optional string inside an f-string.\<close>

definition str_of :: "string option \<Rightarrow> string" where
  "str_of x = (case x of None \<Rightarrow> ''None'' | Some s \<Rightarrow> s)"

definition classify_intent_node :: "WorkflowState \<Rightarrow> WorkflowState" where
  "classify_intent_node s =
     (let s1 = (if qualification_stage s \<noteq> initial \<and> intent s = Some HIGH_INTENT then s
                else s\<lparr>intent := Some (classify_intent (user_input s))\<rparr>)
      in s1\<lparr>state_context := (state_context s1)\<lparr>entities := Some (extract_entities (user_input s1))\<rparr>\<rparr>)"

text \<open>The call \<open>rag_engine.generate_response(state.user_input, state.intent)\<close> of
  \<open>_retrieve_knowledge\<close> and of \<open>_handle_inquiry\<close>.\<close>

definition engine_response :: "Env \<Rightarrow> WorkflowState \<Rightarrow> string + RagResult" where
  "engine_response env s =
     rag_generate_response (dumps env) (dumps_indent env) (py_str env) (knowledge_data env)
       (user_input s) (intent s)"

definition retrieve_knowledge :: "Env \<Rightarrow> WorkflowState \<Rightarrow> outcome" where
  "retrieve_knowledge env s =
     (case engine_response env s of
        Inl e \<Rightarrow> Raise e s
      | Inr result \<Rightarrow>
          Normal (s\<lparr>state_context :=
                      (state_context s)\<lparr>retrieved_knowledge := Some (rag_context result),
                                         sources := Some (rag_sources result)\<rparr>\<rparr>))"

definition handle_inquiry :: "Env \<Rightarrow> WorkflowState \<Rightarrow> outcome" where
  "handle_inquiry env s =
     (case engine_response env s of
        Inl e \<Rightarrow> Raise e s
      | Inr result \<Rightarrow>
          Normal (s\<lparr>response := Some (rag_response result),
                     state_context :=
                       (state_context s)\<lparr>retrieved_knowledge := Some (rag_context result),
                                          sources := Some (rag_sources result)\<rparr>\<rparr>))"

text \<open>The greeting ends with the waving hand U+1F44B, four bytes in UTF-8.\<close>

definition greeting_text :: string where
  "greeting_text = ''Hello '' @ [CHR 0xF0, CHR 0x9F, CHR 0x91, CHR 0x8B]
                   @ '' How can I help you today?''"

definition handle_greeting :: "WorkflowState \<Rightarrow> WorkflowState" where
  "handle_greeting s = s\<lparr>response := Some greeting_text\<rparr>"

subsection \<open>Extraction of name, email and platform\<close>

definition name_prefixes :: "string list" where
  "name_prefixes =
     [''my name is'', ''i'' @ [CHR 0x27] @ ''m'', ''i am'', ''call me'',
      ''it'' @ [CHR 0x27] @ ''s'']"

text \<open>The loop over the prefixes: the first prefix the lower-cased text starts with is
  cut off, the rest is stripped, and the loop ends.\<close>

fun cut_prefix :: "string list \<Rightarrow> string \<Rightarrow> string" where
  "cut_prefix [] text = text"
| "cut_prefix (p # ps) text =
     (if startswith (lower text) p then strip (drop (length p) text)
      else cut_prefix ps text)"

definition extract_name :: "string \<Rightarrow> string option" where
  "extract_name text =
     (case split (cut_prefix name_prefixes (strip text)) of
        [] \<Rightarrow> None
      | w # ws \<Rightarrow> (if 1 < length w then Some (title w) else None))"

text \<open>
  The email pattern is
  \<open>\b[A-Za-z0-9._%+-]+@[A-Za-z0-9.-]+\.[A-Z|a-z]{2,}\b\<close>. \<open>re.search\<close> tries the start
  positions from the left; at each one every repetition first takes as many characters
  as it can and gives them back one at a time until the rest of the pattern matches.
  \<open>ends_desc start least n\<close> lists the positions where a repetition that starts at
  \<open>start\<close>, needs \<open>least\<close> characters and finds \<open>n\<close> can end, the farthest first.
\<close>

definition local_char :: "char \<Rightarrow> bool" where
  "local_char c = (is_alpha c \<or> is_digit c \<or> c \<in> set ''._%+-'')"

definition domain_char :: "char \<Rightarrow> bool" where
  "domain_char c = (is_alpha c \<or> is_digit c \<or> c \<in> set ''.-'')"

definition tld_char :: "char \<Rightarrow> bool" where
  "tld_char c = (is_alpha c \<or> c = CHR ''|'')"

definition run_length :: "(char \<Rightarrow> bool) \<Rightarrow> string \<Rightarrow> nat \<Rightarrow> nat" where
  "run_length P t i = length (takeWhile P (drop i t))"

definition char_at :: "string \<Rightarrow> nat \<Rightarrow> char \<Rightarrow> bool" where
  "char_at t p c = (p < length t \<and> t ! p = c)"

definition ends_desc :: "nat \<Rightarrow> nat \<Rightarrow> nat \<Rightarrow> nat list" where
  "ends_desc start least n = rev [start + least..<Suc (start + n)]"

fun first_some :: "('a \<Rightarrow> 'b option) \<Rightarrow> 'a list \<Rightarrow> 'b option" where
  "first_some f [] = None"
| "first_some f (x # xs) = (case f x of Some y \<Rightarrow> Some y | None \<Rightarrow> first_some f xs)"

definition match_tld :: "string \<Rightarrow> nat \<Rightarrow> nat option" where
  "match_tld t k =
     first_some (\<lambda>e. if boundary t e then Some e else None)
       (ends_desc k 2 (run_length tld_char t k))"

definition match_domain :: "string \<Rightarrow> nat \<Rightarrow> nat option" where
  "match_domain t d =
     first_some (\<lambda>k. if char_at t k CHR ''.'' then match_tld t (Suc k) else None)
       (ends_desc d 1 (run_length domain_char t d))"

definition match_email_at :: "string \<Rightarrow> nat \<Rightarrow> nat option" where
  "match_email_at t i =
     (if boundary t i
      then first_some (\<lambda>j. if char_at t j CHR ''@'' then match_domain t (Suc j) else None)
             (ends_desc i 1 (run_length local_char t i))
      else None)"

definition extract_email :: "string \<Rightarrow> string option" where
  "extract_email text =
     first_some (\<lambda>i. map_option (\<lambda>e. take (e - i) (drop i text)) (match_email_at text i))
       [0..<Suc (length text)]"

definition platforms :: "string list" where
  "platforms = [''youtube'', ''tiktok'', ''instagram'', ''linkedin'', ''twitter'',
                ''facebook'', ''twitch'']"

definition extract_platform :: "string \<Rightarrow> string option" where
  "extract_platform text =
     map_option title (find (\<lambda>p. str_in p (lower text)) platforms)"

subsection \<open>Lead qualification\<close>

definition capture_lead :: "Env \<Rightarrow> WorkflowState \<Rightarrow> outcome \<times> lead_call list" where
  "capture_lead env s =
     (let call = (name s, email s, platform s) in
      case lead_capture env (name s) (email s) (platform s) of
        Some msg \<Rightarrow> (Raise msg s, [call])
      | None \<Rightarrow>
          (Normal (s\<lparr>state_context :=
                       (state_context s)\<lparr>lead_captured := Some (call, now env)\<rparr>\<rparr>),
           [call]))"

definition ask_name_text :: string where
  "ask_name_text = ''Great! I'' @ [CHR 0x27] @ ''d be happy to help you get started. What''
                   @ [CHR 0x27] @ ''s your name?''"

definition ask_email_text :: "string \<Rightarrow> string" where
  "ask_email_text n = ''Nice to meet you, '' @ n @ ''! Now, what'' @ [CHR 0x27]
                      @ ''s your email address?''"

definition retry_name_text :: string where
  "retry_name_text = ''I didn'' @ [CHR 0x27]
                     @ ''t catch your name. Could you please tell me your name?''"

definition ask_platform_text :: string where
  "ask_platform_text = ''Perfect! One last question - what creator platform are you planning to use? (e.g., YouTube, TikTok, Instagram, etc.)''"

definition retry_email_text :: string where
  "retry_email_text = ''I need a valid email address. Could you please provide your email?''"

definition retry_platform_text :: string where
  "retry_platform_text = ''Which creator platform will you be using? For example: YouTube, TikTok, Instagram, LinkedIn, etc.?''"

definition thanks_text :: "string option \<Rightarrow> string" where
  "thanks_text n = ''Thanks '' @ str_of n @ ''! I'' @ [CHR 0x27]
                   @ ''ve captured your information. Our team will be in touch soon!''"

definition handle_lead_qualification :: "Env \<Rightarrow> WorkflowState \<Rightarrow> outcome \<times> lead_call list" where
  "handle_lead_qualification env s =
     (case qualification_stage s of
        initial \<Rightarrow>
          (Normal (s\<lparr>response := Some ask_name_text, qualification_stage := asking_name\<rparr>), [])
      | asking_name \<Rightarrow>
          (let n = extract_name (user_input s) in
           if truthy n
           then (Normal (s\<lparr>name := n, response := Some (ask_email_text (str_of n)),
                           qualification_stage := asking_email\<rparr>), [])
           else (Normal (s\<lparr>response := Some retry_name_text\<rparr>), []))
      | asking_email \<Rightarrow>
          (let e = extract_email (user_input s) in
           if truthy e
           then (Normal (s\<lparr>email := e, response := Some ask_platform_text,
                           qualification_stage := asking_platform\<rparr>), [])
           else (Normal (s\<lparr>response := Some retry_email_text\<rparr>), []))
      | asking_platform \<Rightarrow>
          (let p = extract_platform (user_input s) in
           if truthy p
           then (case capture_lead env (s\<lparr>platform := p\<rparr>) of
                   (Raise msg s1, calls) \<Rightarrow> (Raise msg s1, calls)
                 | (Normal s1, calls) \<Rightarrow>
                     (Normal (s1\<lparr>response := Some (thanks_text (name s1)),
                                 qualification_stage := completed\<rparr>), calls))
           else (Normal (s\<lparr>response := Some retry_platform_text\<rparr>), []))
      | completed \<Rightarrow>
          (Normal (s\<lparr>response := Some (thanks_text (name s))\<rparr>), []))"

definition execute_tools :: "Env \<Rightarrow> WorkflowState \<Rightarrow> outcome \<times> lead_call list" where
  "execute_tools env s =
     (if intent s = Some HIGH_INTENT then handle_lead_qualification env s
      else if intent s = Some INQUIRY then (handle_inquiry env s, [])
      else if intent s = Some GREET then (Normal (handle_greeting s), [])
      else (Normal s, []))"

text \<open>\<open>str.replace('_', ' ')\<close>.\<close>

definition replace_underscore :: "string \<Rightarrow> string" where
  "replace_underscore t = map (\<lambda>c. if c = CHR ''_'' then CHR '' '' else c) t"

text \<open>\<open>_generate_response\<close>. With no \<open>tool_result\<close> in the context only the fallback
  branch is left below the two early returns; its last case calls \<open>replace\<close> on the
  intent and raises \<open>AttributeError\<close> when the intent is \<open>None\<close>.\<close>

definition generate_response :: "WorkflowState \<Rightarrow> outcome" where
  "generate_response s =
     (if intent s = Some HIGH_INTENT
         \<and> qualification_stage s \<in> set [asking_name, asking_email, asking_platform, completed]
      then Normal s
      else if truthy (response s) then Normal s
      else (case intent s of
              Some INQUIRY \<Rightarrow>
                Normal (s\<lparr>response := Some (''I understand you'' @ [CHR 0x27]
                   @ ''re interested in INQUIRY. Let me help you with pricing and plan information.'')\<rparr>)
            | Some GREET \<Rightarrow>
                Normal (s\<lparr>response := Some ''Hello! Welcome to AutoStream. How can I help you today?''\<rparr>)
            | Some HIGH_INTENT \<Rightarrow>
                Normal (s\<lparr>response := Some (''I understand you'' @ [CHR 0x27]
                   @ ''re interested in '' @ replace_underscore (intent_value HIGH_INTENT)
                   @ ''. Let me help you with that.'')\<rparr>)
            | None \<Rightarrow>
                Raise ([CHR 0x27] @ ''NoneType'' @ [CHR 0x27]
                       @ '' object has no attribute '' @ [CHR 0x27] @ ''replace'' @ [CHR 0x27]) s))"

subsection \<open>One turn\<close>

text \<open>
  The workflow graph is the fixed chain start, intent classification, knowledge
  retrieval, tool execution, response generation, end; the loop of \<open>execute_workflow\<close>
  runs the four node functions in this order and stops at the first exception.
\<close>

definition node_ids :: "string list" where
  "node_ids = [''start'', ''intent_classification'', ''knowledge_retrieval'',
               ''tool_execution'', ''response_generation'', ''end'']"

definition run_nodes :: "Env \<Rightarrow> WorkflowState \<Rightarrow> outcome \<times> lead_call list" where
  "run_nodes env s =
     (case retrieve_knowledge env (classify_intent_node s) of
        Raise msg s1 \<Rightarrow> (Raise msg s1, [])
      | Normal s1 \<Rightarrow>
          (case execute_tools env s1 of
             (Raise msg s2, calls) \<Rightarrow> (Raise msg s2, calls)
           | (Normal s2, calls) \<Rightarrow> (generate_response s2, calls)))"

definition append_history :: "history_entry \<Rightarrow> WorkflowState \<Rightarrow> WorkflowState" where
  "append_history e s = s\<lparr>conversation_history := conversation_history s @ [e]\<rparr>"

text \<open>The state of the turn before the nodes run: the supplied state with the new
  input, or a fresh one, and the user's utterance appended to the history.\<close>

definition begin_turn :: "Env \<Rightarrow> string \<Rightarrow> WorkflowState option \<Rightarrow> WorkflowState" where
  "begin_turn env u existing_state =
     append_history (UserEntry (now env) u)
       (case existing_state of
          Some st \<Rightarrow> st\<lparr>user_input := u\<rparr>
        | None \<Rightarrow> new_state u)"

text \<open>\<open>execute_workflow\<close> returns the state; the calls of the capture function made
  during the turn are returned beside it.\<close>

definition execute_workflow ::
  "Env \<Rightarrow> string \<Rightarrow> WorkflowState option \<Rightarrow> WorkflowState \<times> lead_call list" where
  "execute_workflow env u existing_state =
     (case run_nodes env (begin_turn env u existing_state) of
        (Normal s, calls) \<Rightarrow>
          (let s1 = s\<lparr>metadata := (metadata s)\<lparr>execution_time := Some (now env),
                                               nodes_executed := Some node_ids\<rparr>\<rparr>
           in (if truthy (response s1)
               then append_history
                      (AgentEntry (now env) (str_of (response s1)) (intent s1)
                         (qualification_stage s1)) s1
               else s1,
               calls))
      | (Raise msg s, calls) \<Rightarrow>
          (s\<lparr>metadata := (metadata s)\<lparr>error := Some msg\<rparr>,
             response := Some (''An error occurred during processing: '' @ msg)\<rparr>,
           calls))"

text \<open>A conversation: the caller hands the state returned by one turn to the next.
  Each turn has its own environment. The result is the last state (\<open>None\<close> before the
  first turn) and all calls of the capture function, in order.\<close>

fun run_turns ::
  "(Env \<times> string) list \<Rightarrow> WorkflowState option \<times> lead_call list
   \<Rightarrow> WorkflowState option \<times> lead_call list" where
  "run_turns [] acc = acc"
| "run_turns ((env, u) # rest) (st, calls) =
     (case execute_workflow env u st of
        (s, new_calls) \<Rightarrow> run_turns rest (Some s, calls @ new_calls))"

text \<open>The state an outcome carries, and the order of the stages.\<close>

fun state_of :: "outcome \<Rightarrow> WorkflowState" where
  "state_of (Normal s) = s"
| "state_of (Raise msg s) = s"

fun stage_rank :: "stage \<Rightarrow> nat" where
  "stage_rank initial = 0"
| "stage_rank asking_name = 1"
| "stage_rank asking_email = 2"
| "stage_rank asking_platform = 3"
| "stage_rank completed = 4"

definition stage_before :: "WorkflowState option \<Rightarrow> stage" where
  "stage_before st = (case st of None \<Rightarrow> initial | Some s \<Rightarrow> qualification_stage s)"

text \<open>The invariant of the lead record: whatever an earlier stage collected is
  present (neither \<open>None\<close> nor empty) in every later stage.\<close>

definition lead_invariant :: "WorkflowState \<Rightarrow> bool" where
  "lead_invariant s =
     (case qualification_stage s of
        initial \<Rightarrow> True
      | asking_name \<Rightarrow> True
      | asking_email \<Rightarrow> truthy (name s)
      | asking_platform \<Rightarrow> truthy (name s) \<and> truthy (email s)
      | completed \<Rightarrow> truthy (name s) \<and> truthy (email s) \<and> truthy (platform s))"

text \<open>The sticky intent or a fresh classification puts the turn on the qualification
  path.\<close>

definition on_lead_path :: "string \<Rightarrow> WorkflowState option \<Rightarrow> bool" where
  "on_lead_path u st =
     ((stage_before st \<noteq> initial
         \<and> (case st of None \<Rightarrow> None | Some s \<Rightarrow> intent s) = Some HIGH_INTENT)
      \<or> classify_intent u = HIGH_INTENT)"

text \<open>Sample data for concrete runs: a knowledge base with two plans and two policies,
  and an environment around the capture function of the repository.\<close>

definition sample_kb :: "(string \<times> json) list" where
  "sample_kb =
     [(''pricing'',
         JObj [(''Basic'', JObj [(''price'', JStr ''$29/month'')]),
               (''Pro'', JObj [(''price'', JStr ''$79/month'')])]),
      (''policies'',
         JObj [(''refund'', JStr ''No refunds after 7 days''),
               (''support'', JStr ''24/7 support on Pro plan'')])]"

definition sample_env :: Env where
  "sample_env =
     \<lparr>knowledge_data = sample_kb, dumps = (\<lambda>j. ''{}''), dumps_indent = (\<lambda>j. ''{}''),
      py_str = (\<lambda>j. ''{}''), now = ''2024-01-01T00:00:00'',
      lead_capture = mock_lead_capture\<rparr>"

text \<open>More for concrete runs: a dialogue that has reached a given stage with name and
  email collected, and a knowledge base in which the features of a plan are numbers,
  with its environment.\<close>

definition qualifying_state :: "stage \<Rightarrow> WorkflowState" where
  "qualifying_state sg =
     (new_state [])\<lparr>intent := Some HIGH_INTENT, name := Some ''John'',
                     email := Some ''john@example.com'', qualification_stage := sg\<rparr>"

definition numeric_features_kb :: "(string \<times> json) list" where
  "numeric_features_kb =
     [(''pricing'', JObj [(''Pro'', JObj [(''features'', JArr [JInt 1, JInt 2])])])]"

definition numeric_features_env :: Env where
  "numeric_features_env = sample_env\<lparr>knowledge_data := numeric_features_kb\<rparr>"

text \<open>A knowledge base with a plan named "john" whose features are numbers.\<close>

definition john_features_kb :: "(string \<times> json) list" where
  "john_features_kb =
     [(''pricing'', JObj [(''john'', JObj [(''features'', JArr [JInt 1])])])]"

definition john_features_env :: Env where
  "john_features_env = sample_env\<lparr>knowledge_data := john_features_kb\<rparr>"

text \<open>The four turns of the qualification scenario in one environment, and the state
  they end in from no previous state.\<close>

definition scenario_turns :: "Env \<Rightarrow> (Env \<times> string) list" where
  "scenario_turns env =
     [(env, ''I want to try''), (env, ''John''), (env, ''john@example.com''),
      (env, ''YouTube'')]"

definition scenario_state :: "Env \<Rightarrow> WorkflowState" where
  "scenario_state env =
     (case fst (run_turns (scenario_turns env) (None, [])) of
        Some s \<Rightarrow> s
      | None \<Rightarrow> new_state [])"

text \<open>Whether the answer engine returns, rather than raises, for an utterance in an
  environment; and knowledge bases on which it always returns: wherever a sub-item
  is an object whose \<open>features\<close> are a list, the list holds strings only.\<close>

definition engine_ok :: "Env \<Rightarrow> string \<Rightarrow> bool" where
  "engine_ok env u =
     (case generate_llm_response (dumps_indent env) (py_str env) u
             (retrieve_relevant_info (dumps env) (knowledge_data env) u 5) of
        Inl e \<Rightarrow> False
      | Inr resp \<Rightarrow> True)"

definition is_str :: "json \<Rightarrow> bool" where
  "is_str j = (case j of JStr v \<Rightarrow> True | _ \<Rightarrow> False)"

definition features_ok :: "json \<Rightarrow> bool" where
  "features_ok j =
     (case j of
        JObj kvs \<Rightarrow>
          (case map_of kvs ''features'' of
             Some (JArr xs) \<Rightarrow> list_all is_str xs
           | _ \<Rightarrow> True)
      | _ \<Rightarrow> True)"

definition kb_formats :: "(string \<times> json) list \<Rightarrow> bool" where
  "kb_formats kd =
     list_all (\<lambda>kv. case snd kv of
                       JObj subs \<Rightarrow> list_all (\<lambda>sub. features_ok (snd sub)) subs
                     | _ \<Rightarrow> True) kd"

text \<open>The history a turn starts from.\<close>

definition history_before :: "WorkflowState option \<Rightarrow> history_entry list" where
  "history_before st = (case st of None \<Rightarrow> [] | Some s \<Rightarrow> conversation_history s)"

text \<open>
  The relevance score as claim C7 words it, to be compared with
  \<open>calculate_relevance\<close>: start at 0; add 0.8 if the sub-key string appears verbatim in
  the query; add 0.3 per query token that is a substring of the sub-key; add 0.5 if the
  top-level key string appears in the query; add 0.2 per query token that is a
  substring of the leaf text; clamp to a maximum of 1.0. The sums are floating-point
  sums in this order; \<open>add_times n d\<close> adds \<open>d\<close> \<open>n\<close> times.
\<close>

definition add_times :: "nat \<Rightarrow> rat \<Rightarrow> rat \<Rightarrow> rat" where
  "add_times n d score = ((\<lambda>sc. fadd sc d) ^^ n) score"

definition claimed_score :: "string \<Rightarrow> string \<Rightarrow> string option \<Rightarrow> json \<Rightarrow> rat" where
  "claimed_score query main_key sub_key val =
     (let s1 = (case sub_key of
                  None \<Rightarrow> 0
                | Some sk \<Rightarrow>
                    add_times (length (filter (\<lambda>w. str_in w sk) (split query)))
                      (to_double (3 / 10))
                      (if str_in sk query then fadd 0 (to_double (8 / 10)) else 0));
          s2 = (if str_in main_key query then fadd s1 (to_double (5 / 10)) else s1);
          s3 = (case val of
                  JStr v \<Rightarrow>
                    add_times (length (filter (\<lambda>w. str_in w v) (split query)))
                      (to_double (2 / 10)) s2
                | _ \<Rightarrow> s2)
      in min s3 1)"

text \<open>
  The score with the four departures of the source written in: a query without a token
  scores 0; an empty sub-key counts as no sub-key; keys and leaf text are compared in
  lower case; a token is counted once however often the query repeats it.
\<close>

definition tokens_in :: "string \<Rightarrow> string \<Rightarrow> nat" where
  "tokens_in query s = card (set (filter (\<lambda>w. str_in w s) (split query)))"

definition amended_score :: "string \<Rightarrow> string \<Rightarrow> string option \<Rightarrow> json \<Rightarrow> rat" where
  "amended_score query main_key sub_key val =
     (if split query = [] then 0
      else
        let s1 = (case sub_key of
                    None \<Rightarrow> 0
                  | Some sk \<Rightarrow>
                      if sk = [] then 0
                      else add_times (tokens_in query (lower sk)) (to_double (3 / 10))
                             (if str_in (lower sk) query then fadd 0 (to_double (8 / 10))
                              else 0));
            s2 = (if str_in (lower main_key) query then fadd s1 (to_double (5 / 10)) else s1);
            s3 = (case val of
                    JStr v \<Rightarrow> add_times (tokens_in query (lower v)) (to_double (2 / 10)) s2
                  | _ \<Rightarrow> s2)
        in min s3 1)"

text \<open>What it means for an entry to come from a leaf of the knowledge base that passes
  the relevance gate for the lower-cased query.\<close>

definition from_gated_leaf ::
  "(json \<Rightarrow> string) \<Rightarrow> (string \<times> json) list \<Rightarrow> string \<Rightarrow> KnowledgeEntry \<Rightarrow> bool" where
  "from_gated_leaf d kd query e =
     ((\<exists>k subs sub_key sub_value.
          (k, JObj subs) \<in> set kd \<and> (sub_key, sub_value) \<in> set subs
          \<and> is_relevant_to_query (lower query) k (Some sub_key) sub_value
          \<and> e = sub_entry d (lower query) k sub_key sub_value)
      \<or> (\<exists>k v. (k, JStr v) \<in> set kd
            \<and> is_relevant_to_query (lower query) k None (JStr v)
            \<and> e = top_entry (lower query) k v))"

section \<open>Properties of the intent classifier\<close>

text \<open>
  Claim C3 (priority law). An utterance whose lower-cased text is not one of the exact
  short-circuit utterances, and in which some \<open>HIGH_INTENT\<close> pattern and some \<open>GREET\<close>
  pattern are found, is classified as \<open>HIGH_INTENT\<close>.
\<close>

theorem classify_intent_priority:
  assumes "lower u \<notin> set exact_inquiries"
    and "any_match high_intent_patterns (lower u)"
    and "any_match greet_patterns (lower u)"
  shows "classify_intent u = HIGH_INTENT"
  using assms(1,2) by (simp add: classify_intent_def Let_def)

theorem classify_intent_priority_witness:
  "lower ''hi, I want to try Pro'' \<notin> set exact_inquiries
   \<and> any_match high_intent_patterns (lower ''hi, I want to try Pro'')
   \<and> any_match greet_patterns (lower ''hi, I want to try Pro'')
   \<and> classify_intent ''hi, I want to try Pro'' = HIGH_INTENT"
proof -
  have a: "lower ''hi, I want to try Pro'' \<notin> set exact_inquiries"
    by code_simp
  have b: "any_match high_intent_patterns (lower ''hi, I want to try Pro'')"
    by code_simp
  have c: "any_match greet_patterns (lower ''hi, I want to try Pro'')"
    by code_simp
  from classify_intent_priority [OF a b c] a b c show ?thesis
    by blast
qed

lemma key_neq:
  "''topic'' \<noteq> ''plan''" "''topic'' \<noteq> ''feature''" "''topic'' \<noteq> ''action''"
  "''plan'' \<noteq> ''feature''" "''plan'' \<noteq> ''action''" "''feature'' \<noteq> ''action''"
  "''plan'' \<noteq> ''topic''" "''feature'' \<noteq> ''topic''" "''action'' \<noteq> ''topic''"
  "''feature'' \<noteq> ''plan''" "''action'' \<noteq> ''plan''" "''action'' \<noteq> ''feature''"
  by simp_all

lemma entities_topic:
  "extract_entities t ''topic''
     = (if any_in [''price'', ''pricing'', ''cost''] (lower t) then Some ''pricing'' else None)"
  unfolding extract_entities_def Let_def
  by (simp only: fun_upd_apply key_neq if_False refl if_True split: if_split) simp

lemma entities_plan:
  "extract_entities t ''plan''
     = (if str_in ''basic'' (lower t) then Some ''basic''
        else if str_in ''pro'' (lower t) then Some ''pro'' else None)"
  unfolding extract_entities_def Let_def
  by (simp only: fun_upd_apply key_neq if_False refl if_True split: if_split) simp

lemma entities_feature:
  "extract_entities t ''feature''
     = (if str_in ''video'' (lower t) then Some ''video''
        else if str_in ''resolution'' (lower t) then Some ''resolution''
        else if str_in ''captions'' (lower t) then Some ''captions'' else None)"
  unfolding extract_entities_def Let_def
  by (simp only: fun_upd_apply key_neq if_False refl if_True split: if_split) simp

lemma entities_action:
  "extract_entities t ''action''
     = (if any_in [''buy'', ''purchase'', ''order''] (lower t) then Some ''purchase''
        else if any_in [''try'', ''trial'', ''start''] (lower t) then Some ''trial'' else None)"
  unfolding extract_entities_def Let_def
  by (simp only: fun_upd_apply key_neq if_False refl if_True split: if_split) simp

lemma entities_other:
  assumes "k \<noteq> ''topic''" "k \<noteq> ''plan''" "k \<noteq> ''feature''" "k \<noteq> ''action''"
  shows "extract_entities t k = None"
  unfolding extract_entities_def Let_def
  using assms by (simp only: fun_upd_apply if_False refl if_True split: if_split) simp

lemma any_in_append: "any_in (xs @ ys) t = (any_in xs t \<or> any_in ys t)"
  by (simp add: any_in_def list_ex_iff) blast

text \<open>
  Claim C9. Each of the four keys of \<open>extract_entities\<close> is decided by the membership
  tests of its own keywords in the lower-cased text and by nothing else: the key is
  present exactly when one of its keywords occurs, its value is the one the first
  successful test of its own chain assigns, and no other key is ever present. The
  four chains are not exclusive of one another.
\<close>

theorem extract_entities_independent:
  "(''topic'' \<in> dom (extract_entities t))
      = any_in [''price'', ''pricing'', ''cost''] (lower t)
   \<and> (''plan'' \<in> dom (extract_entities t))
      = any_in [''basic'', ''pro''] (lower t)
   \<and> (''feature'' \<in> dom (extract_entities t))
      = any_in [''video'', ''resolution'', ''captions''] (lower t)
   \<and> (''action'' \<in> dom (extract_entities t))
      = any_in [''buy'', ''purchase'', ''order'', ''try'', ''trial'', ''start''] (lower t)
   \<and> extract_entities t ''topic''
      = (if any_in [''price'', ''pricing'', ''cost''] (lower t) then Some ''pricing'' else None)
   \<and> extract_entities t ''plan''
      = (if str_in ''basic'' (lower t) then Some ''basic''
         else if str_in ''pro'' (lower t) then Some ''pro'' else None)
   \<and> extract_entities t ''feature''
      = (if str_in ''video'' (lower t) then Some ''video''
         else if str_in ''resolution'' (lower t) then Some ''resolution''
         else if str_in ''captions'' (lower t) then Some ''captions'' else None)
   \<and> extract_entities t ''action''
      = (if any_in [''buy'', ''purchase'', ''order''] (lower t) then Some ''purchase''
         else if any_in [''try'', ''trial'', ''start''] (lower t) then Some ''trial'' else None)
   \<and> dom (extract_entities t) \<subseteq> {''topic'', ''plan'', ''feature'', ''action''}"
proof -
  have d1: "(''topic'' \<in> dom (extract_entities t))
      = any_in [''price'', ''pricing'', ''cost''] (lower t)"
    by (simp only: domIff entities_topic) simp
  have d2: "(''plan'' \<in> dom (extract_entities t)) = any_in [''basic'', ''pro''] (lower t)"
    by (simp only: domIff entities_plan) (simp add: any_in_def)
  have d3: "(''feature'' \<in> dom (extract_entities t))
      = any_in [''video'', ''resolution'', ''captions''] (lower t)"
    by (simp only: domIff entities_feature) (simp add: any_in_def)
  have split6: "[''buy'', ''purchase'', ''order'', ''try'', ''trial'', ''start'']
      = [''buy'', ''purchase'', ''order''] @ [''try'', ''trial'', ''start'']"
    by simp
  have d4: "(''action'' \<in> dom (extract_entities t))
      = any_in [''buy'', ''purchase'', ''order'', ''try'', ''trial'', ''start''] (lower t)"
    by (simp only: domIff entities_action split6 any_in_append) simp
  have d5: "dom (extract_entities t) \<subseteq> {''topic'', ''plan'', ''feature'', ''action''}"
  proof
    fix k assume "k \<in> dom (extract_entities t)"
    then have ne: "extract_entities t k \<noteq> None" by (simp only: domIff not_False_eq_True)
    show "k \<in> {''topic'', ''plan'', ''feature'', ''action''}"
    proof (rule ccontr)
      assume "k \<notin> {''topic'', ''plan'', ''feature'', ''action''}"
      then have "k \<noteq> ''topic''" "k \<noteq> ''plan''" "k \<noteq> ''feature''" "k \<noteq> ''action''"
        by (simp_all only: insert_iff empty_iff de_Morgan_disj simp_thms)
      from entities_other [OF this, of t] ne show False by simp
    qed
  qed
  show ?thesis
    by (rule conjI d1 d2 d3 d4 d5 entities_topic entities_plan entities_feature
          entities_action)+
qed

section \<open>Properties of the knowledge retriever\<close>

lemma pow2_pos: "0 < pow2 k"
  by (simp add: pow2_def)

lemma round_half_even_nonneg: "0 \<le> q \<Longrightarrow> 0 \<le> round_half_even q"
  by (simp add: round_half_even_def Let_def)

lemma round_positive_nonneg: "0 \<le> x \<Longrightarrow> 0 \<le> round_positive x"
  by (simp add: round_positive_def Let_def round_half_even_nonneg pow2_pos less_imp_le)

lemma to_double_nonneg: "0 \<le> x \<Longrightarrow> 0 \<le> to_double x"
  by (simp add: to_double_def round_positive_nonneg)

lemma fadd_nonneg: "0 \<le> x \<Longrightarrow> 0 \<le> y \<Longrightarrow> 0 \<le> fadd x y"
  by (simp add: fadd_def to_double_nonneg)

lemma add_times_nonneg: "0 \<le> d \<Longrightarrow> 0 \<le> score \<Longrightarrow> 0 \<le> add_times n d score"
  by (induction n) (simp_all add: add_times_def fadd_nonneg)

lemma add_times_Suc: "add_times (Suc n) d score = add_times n d (fadd score d)"
  unfolding add_times_def
  by (induction n) simp_all

lemma add_per_word_count:
  "add_per_word d ws s score = add_times (length (filter (\<lambda>w. str_in w s) ws)) d score"
proof (induction ws arbitrary: score)
  case Nil
  show ?case by (simp add: add_per_word_def add_times_def)
next
  case (Cons w ws)
  have step: "add_per_word d (w # ws) s score
                = add_per_word d ws s (if str_in w s then fadd score d else score)"
    by (simp add: add_per_word_def)
  show ?case
    by (simp only: step Cons.IH) (simp add: add_times_Suc)
qed

lemma count_remdups:
  "length (filter (\<lambda>w. str_in w s) (remdups (split query))) = tokens_in query s"
  by (simp add: tokens_in_def remdups_filter [symmetric] length_remdups_card_conv)

lemma calculate_relevance_eq:
  "calculate_relevance query main_key sub_key val = amended_score query main_key sub_key val"
  by (simp add: calculate_relevance_def amended_score_def Let_def add_per_word_count
        count_remdups split: option.splits json.splits)

lemma amended_score_bounds:
  "0 \<le> amended_score query main_key sub_key val"
  "amended_score query main_key sub_key val \<le> 1"
  by (simp_all add: amended_score_def Let_def add_times_nonneg fadd_nonneg to_double_nonneg
        split: option.splits json.splits)

lemma calculate_relevance_bounds:
  "0 \<le> calculate_relevance query main_key sub_key val"
  "calculate_relevance query main_key sub_key val \<le> 1"
  by (simp_all add: calculate_relevance_eq amended_score_bounds)

lemma item_entries_gated:
  "e \<in> set (item_entries d (lower query) kv) \<Longrightarrow> kv \<in> set kd
     \<Longrightarrow> from_gated_leaf d kd query e"
  unfolding from_gated_leaf_def item_entries_def
  by (cases kv) (auto split: json.splits if_splits)

lemma relevant_items_gated:
  "e \<in> set (relevant_items d kd query)
     \<Longrightarrow> from_gated_leaf d kd query e"
  by (auto simp: relevant_items_def dest: item_entries_gated)

lemma from_gated_leaf_score:
  "from_gated_leaf d kd query e
     \<Longrightarrow> 0 \<le> relevance_score e \<and> relevance_score e \<le> 1"
  by (auto simp: from_gated_leaf_def sub_entry_def top_entry_def calculate_relevance_bounds)

theorem score_departs_from_claim:
  "is_relevant_to_query '' '' ''k'' (Some '' '') (JStr ''v'')
   \<and> calculate_relevance '' '' ''k'' (Some '' '') (JStr ''v'') = 0
   \<and> claimed_score '' '' ''k'' (Some '' '') (JStr ''v'') = to_double (8 / 10)
   \<and> is_relevant_to_query ''video plan'' ''pricing'' (Some []) (JStr ''video plan'')
   \<and> calculate_relevance ''video plan'' ''pricing'' (Some []) (JStr ''video plan'')
       = to_double (4 / 10)
   \<and> claimed_score ''video plan'' ''pricing'' (Some []) (JStr ''video plan'') = 1
   \<and> is_relevant_to_query ''a a'' ''k'' None (JStr ''a'')
   \<and> calculate_relevance ''a a'' ''k'' None (JStr ''a'') = to_double (2 / 10)
   \<and> claimed_score ''a a'' ''k'' None (JStr ''a'') = to_double (4 / 10)
   \<and> is_relevant_to_query ''pro'' ''pricing'' (Some ''Pro'') (JObj [])
   \<and> calculate_relevance ''pro'' ''pricing'' (Some ''Pro'') (JObj []) = 1
   \<and> claimed_score ''pro'' ''pricing'' (Some ''Pro'') (JObj []) = 0
   \<and> to_double (8 / 10) \<noteq> 0 \<and> to_double (4 / 10) \<noteq> 1
   \<and> to_double (2 / 10) \<noteq> to_double (4 / 10)"
  by code_simp

text \<open>
  Claim C7, amended. For every gated entry the relevance score is the clamped
  floating-point sum: 0 for a query without a token; otherwise start at 0; add 0.8 if
  the sub-key is not empty and occurs, in lower case, in the query; add 0.3 for each
  distinct query token that occurs in the lower-cased non-empty sub-key; add 0.5 if the
  lower-cased top-level key occurs in the query; add 0.2 for each distinct query token
  that occurs in the lower-cased leaf text; clamp to at most 1.0. Every score, and so
  the score of every returned entry, lies between 0 and 1. The equality holds of every
  leaf, gated or not. The claim as stated fails on gated entries in four ways: a query
  of one space with a sub-key of one space scores 0 where the sum is 0.8; an empty
  sub-key adds nothing although it occurs in every query; a token the query repeats is
  counted once; a sub-key "Pro" counts for the query "pro".
\<close>

theorem relevance_score_formula:
  "calculate_relevance query main_key sub_key val = amended_score query main_key sub_key val
   \<and> 0 \<le> calculate_relevance query main_key sub_key val
   \<and> calculate_relevance query main_key sub_key val \<le> 1
   \<and> (\<forall>e \<in> set (retrieve_relevant_info d kd q max_results).
         0 \<le> relevance_score e \<and> relevance_score e \<le> 1)"
proof -
  have "set (retrieve_relevant_info d kd q max_results) \<subseteq> set (relevant_items d kd q)"
    by (auto simp: retrieve_relevant_info_def slice_to_def sort_reverse_def
          dest: in_set_takeD)
  then have "\<forall>e \<in> set (retrieve_relevant_info d kd q max_results).
               0 \<le> relevance_score e \<and> relevance_score e \<le> 1"
    using relevant_items_gated from_gated_leaf_score by blast
  then show ?thesis
    by (simp add: calculate_relevance_eq amended_score_bounds)
qed

theorem relevance_score_formula_witness:
  "calculate_relevance ''tell me about pro plan'' ''policies'' (Some ''support'')
        (JStr ''24/7 support on Pro plan'') = to_double (4 / 10)
   \<and> amended_score ''tell me about pro plan'' ''policies'' (Some ''support'')
        (JStr ''24/7 support on Pro plan'') = to_double (4 / 10)
   \<and> list_all (\<lambda>e. 0 \<le> relevance_score e \<and> relevance_score e \<le> 1)
        (retrieve_relevant_info (dumps sample_env) sample_kb ''Pro plan'' 5)"
proof -
  have b: "amended_score ''tell me about pro plan'' ''policies'' (Some ''support'')
        (JStr ''24/7 support on Pro plan'') = to_double (4 / 10)" by code_simp
  note f = relevance_score_formula [of "''tell me about pro plan''" "''policies''"
         "Some ''support''" "JStr ''24/7 support on Pro plan''" "dumps sample_env" sample_kb
         "''Pro plan''" 5]
  from f b show ?thesis by (simp add: list_all_iff)
qed

theorem negative_limit_exceeded:
  "length (retrieve_relevant_info (dumps sample_env) sample_kb ''Pro plan'' (- 1)) = 2
   \<and> \<not> int (length (retrieve_relevant_info (dumps sample_env) sample_kb ''Pro plan'' (- 1)))
         \<le> - 1"
proof -
  have "length (retrieve_relevant_info (dumps sample_env) sample_kb ''Pro plan'' (- 1)) = 2"
    by code_simp
  then show ?thesis by simp
qed

lemma sort_reverse_sorted:
  "sorted_wrt (\<lambda>a b. f b \<le> f a) (sort_reverse f xs)"
proof -
  have "sorted (map (\<lambda>x. - f x) (sort_key (\<lambda>x. - f x) xs))"
    by (rule sorted_sort_key)
  then show ?thesis
    by (simp add: sort_reverse_def sorted_map)
qed

lemma sort_reverse_stable:
  "filter (\<lambda>x. f x = v) (sort_reverse f xs) = filter (\<lambda>x. f x = v) xs"
proof -
  have "filter (\<lambda>x. - f x = - v) (sort_key (\<lambda>x. - f x) xs) = filter (\<lambda>x. - f x = - v) xs"
    by (rule sort_key_stable)
  then show ?thesis by (simp add: sort_reverse_def)
qed

lemma sort_reverse_set: "set (sort_reverse f xs) = set xs"
  by (simp add: sort_reverse_def)

lemma sort_reverse_length: "length (sort_reverse f xs) = length xs"
  by (simp add: sort_reverse_def)

lemma slice_to_nonneg: "0 \<le> n \<Longrightarrow> slice_to n xs = take (nat n) xs"
  by (simp add: slice_to_def)

lemma item_entries_obj:
  "(sk, sv) \<in> set subs \<Longrightarrow> is_relevant_to_query ql k (Some sk) sv
     \<Longrightarrow> sub_entry d ql k sk sv \<in> set (item_entries d ql (k, JObj subs))"
  by (simp add: item_entries_def image_iff) (rule exI [of _ sk], rule exI [of _ sv], simp)

lemma item_entries_str:
  "is_relevant_to_query ql k None (JStr v)
     \<Longrightarrow> top_entry ql k v \<in> set (item_entries d ql (k, JStr v))"
  by (simp add: item_entries_def)

lemma in_relevant_items:
  "kv \<in> set kd \<Longrightarrow> e \<in> set (item_entries d (lower query) kv)
     \<Longrightarrow> e \<in> set (relevant_items d kd query)"
  by (auto simp: relevant_items_def)

text \<open>
  Claim C6, amended. For every query, knowledge base and limit that is not negative,
  retrieval returns the first \<open>limit\<close> entries of the gated entries sorted by score: at
  most \<open>limit\<close> entries, the scores descending, entries of equal score in the order the
  traversal met them, every entry built from a leaf that passes the relevance gate, and
  every such leaf's entry among the candidates. The function returns a list in every
  case, the empty list for an empty knowledge base. The claim as stated fails for a
  negative limit, where the slice drops entries from the end: with limit -1 two
  entries are returned.
\<close>

theorem retrieval_contract:
  assumes "0 \<le> max_results"
  shows "int (length (retrieve_relevant_info d kd query max_results)) \<le> max_results
       \<and> retrieve_relevant_info d kd query max_results
           = take (nat max_results) (sort_reverse relevance_score (relevant_items d kd query))
       \<and> sorted_wrt (\<lambda>a b. relevance_score b \<le> relevance_score a)
           (retrieve_relevant_info d kd query max_results)
       \<and> (\<forall>v. prefix (filter (\<lambda>e. relevance_score e = v)
                          (retrieve_relevant_info d kd query max_results))
                       (filter (\<lambda>e. relevance_score e = v) (relevant_items d kd query)))
       \<and> (\<forall>e \<in> set (retrieve_relevant_info d kd query max_results).
             from_gated_leaf d kd query e)
       \<and> (\<forall>e. from_gated_leaf d kd query e \<longrightarrow> e \<in> set (relevant_items d kd query))
       \<and> retrieve_relevant_info d [] query max_results = []"
proof -
  let ?items = "relevant_items d kd query"
  let ?sorted = "sort_reverse relevance_score ?items"
  have r: "retrieve_relevant_info d kd query max_results = take (nat max_results) ?sorted"
    using assms by (simp add: retrieve_relevant_info_def slice_to_nonneg)
  have len: "int (length (retrieve_relevant_info d kd query max_results)) \<le> max_results"
    using assms by (simp add: r)
  have srt: "sorted_wrt (\<lambda>a b. relevance_score b \<le> relevance_score a)
           (retrieve_relevant_info d kd query max_results)"
    unfolding r by (rule sorted_wrt_take) (rule sort_reverse_sorted)
  have stab: "prefix (filter (\<lambda>e. relevance_score e = v)
                          (retrieve_relevant_info d kd query max_results))
                       (filter (\<lambda>e. relevance_score e = v) ?items)" for v
  proof -
    have "prefix (take (nat max_results) ?sorted) ?sorted" by (rule take_is_prefix)
    then have "prefix (filter (\<lambda>e. relevance_score e = v) (take (nat max_results) ?sorted))
                      (filter (\<lambda>e. relevance_score e = v) ?sorted)"
      by (rule filter_mono_prefix)
    then show ?thesis by (simp add: r sort_reverse_stable)
  qed
  have gate: "\<forall>e \<in> set (retrieve_relevant_info d kd query max_results).
             from_gated_leaf d kd query e"
  proof
    fix e assume "e \<in> set (retrieve_relevant_info d kd query max_results)"
    then have "e \<in> set ?items"
      unfolding r by (auto dest: in_set_takeD simp: sort_reverse_set)
    then show "from_gated_leaf d kd query e" by (rule relevant_items_gated)
  qed
  have conv: "from_gated_leaf d kd query e \<longrightarrow> e \<in> set ?items" for e
  proof
    assume "from_gated_leaf d kd query e"
    then consider
      (sub) k subs sub_key sub_value where "(k, JObj subs) \<in> set kd"
        "(sub_key, sub_value) \<in> set subs"
        "is_relevant_to_query (lower query) k (Some sub_key) sub_value"
        "e = sub_entry d (lower query) k sub_key sub_value"
    | (top) k v where "(k, JStr v) \<in> set kd"
        "is_relevant_to_query (lower query) k None (JStr v)"
        "e = top_entry (lower query) k v"
      unfolding from_gated_leaf_def by blast
    then show "e \<in> set ?items"
    proof cases
      case sub
      from item_entries_obj [OF sub(2,3)] sub(4)
      have "e \<in> set (item_entries d (lower query) (k, JObj subs))" by simp
      with sub(1) show ?thesis by (rule in_relevant_items)
    next
      case top
      from item_entries_str [OF top(2)] top(3)
      have "e \<in> set (item_entries d (lower query) (k, JStr v))" by simp
      with top(1) show ?thesis by (rule in_relevant_items)
    qed
  qed
  have emp: "retrieve_relevant_info d [] query max_results = []"
    by (simp add: retrieve_relevant_info_def relevant_items_def sort_reverse_def slice_to_def)
  from len r srt stab gate conv emp show ?thesis by (intro conjI allI) assumption+
qed

theorem retrieval_contract_witness:
  "(0::int) \<le> 2
   \<and> int (length (retrieve_relevant_info (dumps sample_env) sample_kb
                     ''Pro plan'' 2)) \<le> 2
   \<and> map key (retrieve_relevant_info (dumps sample_env) sample_kb ''Pro plan'' 2)
       = [''pricing.Pro'', ''policies.support'']
   \<and> map key (relevant_items (dumps sample_env) sample_kb ''Pro plan'')
       = [''pricing.Basic'', ''pricing.Pro'', ''policies.support'']"
proof -
  have h: "(0::int) \<le> 2" by simp
  have len: "int (length (retrieve_relevant_info (dumps sample_env) sample_kb
                     ''Pro plan'' 2)) \<le> 2"
    using retrieval_contract [OF h, of "dumps sample_env" sample_kb "''Pro plan''"]
    by (rule conjunct1)
  have k1: "map key (retrieve_relevant_info (dumps sample_env) sample_kb
                       ''Pro plan'' 2)
       = [''pricing.Pro'', ''policies.support'']"
    by code_simp
  have k2: "map key (relevant_items (dumps sample_env) sample_kb ''Pro plan'')
       = [''pricing.Basic'', ''pricing.Pro'', ''policies.support'']"
    by code_simp
  from h len k1 k2 show ?thesis by (intro conjI)
qed

section \<open>When the answer engine returns\<close>

lemma split_on_acc_nonempty: "split_on_acc c cur s \<noteq> []"
  by (induction s arbitrary: cur) simp_all

lemma split_on_acc_two:
  "c \<in> set s \<Longrightarrow> \<exists>a b rest. split_on_acc c cur s = a # b # rest"
proof (induction s arbitrary: cur)
  case Nil
  then show ?case by simp
next
  case (Cons x xs)
  show ?case
  proof (cases "x = c")
    case True
    obtain b rest where "split_on_acc c [] xs = b # rest"
      using split_on_acc_nonempty [of c "[]" xs] by (cases "split_on_acc c [] xs") auto
    with True show ?thesis by simp
  next
    case False
    with Cons.prems have "c \<in> set xs" by simp
    from Cons.IH [OF this, of "cur @ [x]"] False show ?thesis by simp
  qed
qed

lemma second_piece_ok: "CHR ''.'' \<in> set k \<Longrightarrow> \<exists>b. second_piece k = Inr b"
  using split_on_acc_two [of "CHR ''.''" k "[]"]
  by (auto simp: second_piece_def split_on_def)

lemma first_non_str_none: "list_all is_str xs \<Longrightarrow> first_non_str i xs = None"
  by (induction xs arbitrary: i) (auto simp: is_str_def split: json.splits)

lemma join_features_ok: "list_all is_str xs \<Longrightarrow> \<exists>r. join_features xs = Inr r"
  by (simp add: join_features_def first_non_str_none)

lemma format_plan_info_ok:
  assumes "features_ok data"
  shows "\<exists>r. format_plan_info ts plan_name data = Inr r"
proof (cases data)
  case (JObj kvs)
  show ?thesis
  proof (cases "map_of kvs ''features''")
    case None
    with JObj show ?thesis by (simp add: format_plan_info_def Let_def)
  next
    case (Some f)
    show ?thesis
    proof (cases f)
      case (JArr xs)
      with assms JObj Some have "list_all is_str xs" by (simp add: features_ok_def)
      then obtain r where "join_features xs = Inr r" using join_features_ok by blast
      with JObj Some JArr show ?thesis by (simp add: format_plan_info_def Let_def)
    qed (use JObj Some in \<open>simp_all add: format_plan_info_def Let_def\<close>)
  qed
qed (simp_all add: format_plan_info_def)

lemma format_item_ok:
  assumes "features_ok (full_data item)"
  shows "\<exists>r. format_item d2 ts item = Inr r"
proof (cases "CHR ''.'' \<in> set (key item)")
  case True
  then obtain b where b: "second_piece (key item) = Inr b" using second_piece_ok by blast
  obtain r where "format_plan_info ts b (full_data item) = Inr r"
    using format_plan_info_ok [OF assms] by blast
  with True b show ?thesis by (simp add: format_item_def Let_def)
next
  case False
  then show ?thesis by (simp add: format_item_def Let_def)
qed

lemma format_items_ok:
  "list_all (\<lambda>item. features_ok (full_data item)) items
     \<Longrightarrow> \<exists>r. format_items d2 ts items = Inr r"
proof (induction items)
  case Nil
  show ?case by simp
next
  case (Cons item items)
  then obtain r where r: "format_items d2 ts items = Inr r" by auto
  from Cons.prems obtain p where "format_item d2 ts item = Inr p"
    using format_item_ok [of item d2 ts] by auto
  with r show ?case by simp
qed

lemma gated_leaf_features_ok:
  assumes "kb_formats kd" and "from_gated_leaf d kd query e"
  shows "features_ok (full_data e)"
proof -
  from assms(2) consider
    (sub) k subs sub_key sub_value where "(k, JObj subs) \<in> set kd"
      "(sub_key, sub_value) \<in> set subs" "e = sub_entry d (lower query) k sub_key sub_value"
  | (top) k v where "e = top_entry (lower query) k v"
    unfolding from_gated_leaf_def by blast
  then show ?thesis
  proof cases
    case sub
    from assms(1) have "\<forall>kv \<in> set kd. case snd kv of
                       JObj subs \<Rightarrow> list_all (\<lambda>sub. features_ok (snd sub)) subs
                     | _ \<Rightarrow> True"
      by (simp add: kb_formats_def list_all_iff)
    from bspec [OF this sub(1)] have "list_all (\<lambda>sub. features_ok (snd sub)) subs"
      by simp
    then have "\<forall>sub \<in> set subs. features_ok (snd sub)" by (simp add: list_all_iff)
    from bspec [OF this sub(2)] have "features_ok sub_value" by simp
    with sub(3) show ?thesis by (simp add: sub_entry_def)
  next
    case top
    then show ?thesis by (simp add: top_entry_def features_ok_def)
  qed
qed

text \<open>The answer engine returns for every utterance when the knowledge base lists
  features, where it lists them, as strings.\<close>

lemma kb_formats_engine_ok:
  assumes "kb_formats (knowledge_data env)"
  shows "engine_ok env u"
proof -
  let ?info = "retrieve_relevant_info (dumps env) (knowledge_data env) u 5"
  have "set ?info \<subseteq> set (relevant_items (dumps env) (knowledge_data env) u)"
    by (auto simp: retrieve_relevant_info_def slice_to_def sort_reverse_def
          dest: in_set_takeD)
  then have "list_all (\<lambda>item. features_ok (full_data item)) ?info"
    using relevant_items_gated gated_leaf_features_ok [OF assms]
    by (fastforce simp: list_all_iff)
  then obtain r where "format_items (dumps_indent env) (py_str env) ?info = Inr r"
    using format_items_ok by blast
  then show ?thesis
    by (simp add: engine_ok_def generate_llm_response_def split: list.splits)
qed

section \<open>Properties of the dialogue state machine and the turn\<close>

lemma classify_node_fields [simp]:
  "qualification_stage (classify_intent_node s) = qualification_stage s"
  "name (classify_intent_node s) = name s"
  "email (classify_intent_node s) = email s"
  "platform (classify_intent_node s) = platform s"
  "response (classify_intent_node s) = response s"
  "user_input (classify_intent_node s) = user_input s"
  "conversation_history (classify_intent_node s) = conversation_history s"
  "intent (classify_intent_node s)
     = (if qualification_stage s \<noteq> initial \<and> intent s = Some HIGH_INTENT
        then Some HIGH_INTENT else Some (classify_intent (user_input s)))"
  by (simp_all add: classify_intent_node_def Let_def)

lemma retrieve_fields [simp]:
  "qualification_stage (state_of (retrieve_knowledge env s)) = qualification_stage s"
  "name (state_of (retrieve_knowledge env s)) = name s"
  "email (state_of (retrieve_knowledge env s)) = email s"
  "platform (state_of (retrieve_knowledge env s)) = platform s"
  "response (state_of (retrieve_knowledge env s)) = response s"
  "user_input (state_of (retrieve_knowledge env s)) = user_input s"
  "conversation_history (state_of (retrieve_knowledge env s)) = conversation_history s"
  "intent (state_of (retrieve_knowledge env s)) = intent s"
  by (simp_all add: retrieve_knowledge_def split: sum.splits)

lemma handle_inquiry_fields [simp]:
  "qualification_stage (state_of (handle_inquiry env s)) = qualification_stage s"
  "name (state_of (handle_inquiry env s)) = name s"
  "email (state_of (handle_inquiry env s)) = email s"
  "platform (state_of (handle_inquiry env s)) = platform s"
  "conversation_history (state_of (handle_inquiry env s)) = conversation_history s"
  "intent (state_of (handle_inquiry env s)) = intent s"
  by (simp_all add: handle_inquiry_def split: sum.splits)

lemma engine_ok_response:
  "engine_ok env (user_input s) = (\<exists>r. engine_response env s = Inr r)"
  by (simp add: engine_ok_def engine_response_def rag_generate_response_def Let_def
        split: sum.splits)

lemma retrieve_ok:
  "engine_ok env (user_input s)
     \<Longrightarrow> retrieve_knowledge env s = Normal (state_of (retrieve_knowledge env s))"
  by (auto simp: engine_ok_response retrieve_knowledge_def)

lemma retrieve_raises:
  "\<not> engine_ok env (user_input s) \<Longrightarrow> \<exists>e. retrieve_knowledge env s = Raise e s"
  by (auto simp: engine_ok_response retrieve_knowledge_def split: sum.splits)

lemma begin_turn_fields [simp]:
  "qualification_stage (begin_turn env u st) = stage_before st"
  "name (begin_turn env u st) = (case st of None \<Rightarrow> None | Some s \<Rightarrow> name s)"
  "email (begin_turn env u st) = (case st of None \<Rightarrow> None | Some s \<Rightarrow> email s)"
  "platform (begin_turn env u st) = (case st of None \<Rightarrow> None | Some s \<Rightarrow> platform s)"
  "intent (begin_turn env u st) = (case st of None \<Rightarrow> None | Some s \<Rightarrow> intent s)"
  "user_input (begin_turn env u st) = u"
  "conversation_history (begin_turn env u st)
     = (case st of None \<Rightarrow> [] | Some s \<Rightarrow> conversation_history s) @ [UserEntry (now env) u]"
  by (simp_all add: begin_turn_def append_history_def new_state_def stage_before_def
        split: option.splits)

lemma capture_lead_cases:
  "capture_lead env s = (r, calls) \<Longrightarrow>
     calls = [(name s, email s, platform s)] \<and>
     qualification_stage (state_of r) = qualification_stage s \<and>
     name (state_of r) = name s \<and> email (state_of r) = email s \<and>
     platform (state_of r) = platform s \<and> intent (state_of r) = intent s \<and>
     response (state_of r) = response s \<and>
     conversation_history (state_of r) = conversation_history s"
  by (auto simp: capture_lead_def Let_def split: option.splits)

lemma hlq_stage_mono:
  "stage_rank (qualification_stage s)
     \<le> stage_rank (qualification_stage (state_of (fst (handle_lead_qualification env s))))"
  by (cases "qualification_stage s")
     (auto simp: handle_lead_qualification_def Let_def
           dest!: capture_lead_cases split: prod.splits outcome.splits)

lemma hlq_frame:
  "intent (state_of (fst (handle_lead_qualification env s))) = intent s"
  "conversation_history (state_of (fst (handle_lead_qualification env s))) = conversation_history s"
  by (cases "qualification_stage s";
      auto simp: handle_lead_qualification_def Let_def
           dest!: capture_lead_cases split: prod.splits outcome.splits)+

lemma execute_tools_stage_mono:
  "stage_rank (qualification_stage s)
     \<le> stage_rank (qualification_stage (state_of (fst (execute_tools env s))))"
  by (simp add: execute_tools_def hlq_stage_mono handle_greeting_def)

lemma execute_tools_frame:
  "intent (state_of (fst (execute_tools env s))) = intent s"
  "conversation_history (state_of (fst (execute_tools env s))) = conversation_history s"
  by (simp_all add: execute_tools_def hlq_frame handle_greeting_def)

lemma generate_response_frame [simp]:
  "qualification_stage (state_of (generate_response s)) = qualification_stage s"
  "intent (state_of (generate_response s)) = intent s"
  "name (state_of (generate_response s)) = name s"
  "email (state_of (generate_response s)) = email s"
  "platform (state_of (generate_response s)) = platform s"
  "conversation_history (state_of (generate_response s)) = conversation_history s"
  by (simp_all add: generate_response_def split: option.splits IntentType.splits)

text \<open>The state the nodes leave, by the node that ended the run.\<close>

lemma run_nodes_state:
  "state_of (fst (run_nodes env s))
     = (case retrieve_knowledge env (classify_intent_node s) of
          Raise msg s1 \<Rightarrow> s1
        | Normal s1 \<Rightarrow>
            (case fst (execute_tools env s1) of
               Normal s2 \<Rightarrow> state_of (generate_response s2)
             | Raise msg s2 \<Rightarrow> s2))"
  by (simp add: run_nodes_def split: prod.splits outcome.splits)

lemma run_nodes_stage_mono:
  "stage_rank (qualification_stage s)
     \<le> stage_rank (qualification_stage (state_of (fst (run_nodes env s))))"
proof -
  let ?r = "retrieve_knowledge env (classify_intent_node s)"
  have s1: "qualification_stage (state_of ?r) = qualification_stage s" by simp
  show ?thesis
  proof (cases ?r)
    case (Raise msg s1)
    with s1 show ?thesis by (simp add: run_nodes_state)
  next
    case (Normal s1)
    have "stage_rank (qualification_stage s1)
            \<le> stage_rank (qualification_stage (state_of (fst (execute_tools env s1))))"
      by (rule execute_tools_stage_mono)
    with s1 Normal show ?thesis
      by (cases "fst (execute_tools env s1)") (simp_all add: run_nodes_state)
  qed
qed

lemma execute_workflow_stage:
  "qualification_stage (fst (execute_workflow env u st))
     = qualification_stage (state_of (fst (run_nodes env (begin_turn env u st))))"
  by (simp add: execute_workflow_def Let_def append_history_def
        split: prod.splits outcome.splits)

lemma execute_workflow_stage_mono:
  "stage_rank (stage_before st)
     \<le> stage_rank (qualification_stage (fst (execute_workflow env u st)))"
  using run_nodes_stage_mono [of "begin_turn env u st" env]
  by (simp add: execute_workflow_stage)

lemma run_turns_stage_mono:
  "stage_rank (stage_before st)
     \<le> stage_rank (stage_before (fst (run_turns turns (st, calls))))"
proof (induction turns arbitrary: st calls)
  case Nil
  show ?case by simp
next
  case (Cons t turns)
  obtain env u where t: "t = (env, u)" by (cases t)
  obtain s c where ex: "execute_workflow env u st = (s, c)" by (cases "execute_workflow env u st")
  have "stage_rank (stage_before st) \<le> stage_rank (qualification_stage s)"
    using execute_workflow_stage_mono [of st env u] ex by simp
  also have "\<dots> = stage_rank (stage_before (Some s))" by (simp add: stage_before_def)
  also have "\<dots> \<le> stage_rank (stage_before (fst (run_turns turns (Some s, calls @ c))))"
    by (rule Cons.IH)
  finally show ?case by (simp add: t ex)
qed

lemma execute_workflow_fields:
  "intent (fst (execute_workflow env u st)) = intent (state_of (fst (run_nodes env (begin_turn env u st))))"
  "name (fst (execute_workflow env u st)) = name (state_of (fst (run_nodes env (begin_turn env u st))))"
  "email (fst (execute_workflow env u st)) = email (state_of (fst (run_nodes env (begin_turn env u st))))"
  "platform (fst (execute_workflow env u st)) = platform (state_of (fst (run_nodes env (begin_turn env u st))))"
  "snd (execute_workflow env u st) = snd (run_nodes env (begin_turn env u st))"
  by (simp_all add: execute_workflow_def Let_def append_history_def
        split: prod.splits outcome.splits)

lemma run_nodes_intent:
  "intent (state_of (fst (run_nodes env s))) = intent (classify_intent_node s)"
proof -
  let ?r = "retrieve_knowledge env (classify_intent_node s)"
  have i: "intent (state_of ?r) = intent (classify_intent_node s)" by simp
  show ?thesis
  proof (cases ?r)
    case (Raise msg s1)
    with i show ?thesis by (simp add: run_nodes_state)
  next
    case (Normal s1)
    with i execute_tools_frame(1) [of env s1] show ?thesis
      by (cases "fst (execute_tools env s1)") (simp_all add: run_nodes_state)
  qed
qed

lemma execute_workflow_intent:
  "intent (fst (execute_workflow env u st))
     = (if stage_before st \<noteq> initial
           \<and> (case st of None \<Rightarrow> None | Some s \<Rightarrow> intent s) = Some HIGH_INTENT
        then Some HIGH_INTENT else Some (classify_intent u))"
  by (simp add: execute_workflow_fields run_nodes_intent)

lemma hlq_normal_not_initial:
  "handle_lead_qualification env s = (Normal s1, c) \<Longrightarrow> qualification_stage s1 \<noteq> initial"
  by (cases "qualification_stage s")
     (auto simp: handle_lead_qualification_def Let_def
           dest!: capture_lead_cases split: prod.splits outcome.splits if_splits)

lemma stage_cases4:
  "st \<noteq> initial \<Longrightarrow> st \<in> set [asking_name, asking_email, asking_platform, completed]"
  by (cases st) simp_all

lemma run_nodes_high:
  assumes "intent (classify_intent_node s) = Some HIGH_INTENT"
    and "engine_ok env (user_input s)"
  shows "run_nodes env s
           = handle_lead_qualification env
               (state_of (retrieve_knowledge env (classify_intent_node s)))"
proof -
  define s1 where "s1 = state_of (retrieve_knowledge env (classify_intent_node s))"
  have "retrieve_knowledge env (classify_intent_node s)
          = Normal (state_of (retrieve_knowledge env (classify_intent_node s)))"
    using assms(2) by (intro retrieve_ok) simp
  then have rk: "retrieve_knowledge env (classify_intent_node s) = Normal s1"
    by (simp only: s1_def)
  have i1: "intent s1 = Some HIGH_INTENT" using assms(1) by (simp add: s1_def)
  then have et: "execute_tools env s1 = handle_lead_qualification env s1"
    by (simp add: execute_tools_def)
  obtain r c where h: "handle_lead_qualification env s1 = (r, c)"
    by (cases "handle_lead_qualification env s1")
  have "run_nodes env s = handle_lead_qualification env s1"
  proof (cases r)
    case (Normal s2)
    have "qualification_stage s2 \<noteq> initial"
      using h Normal by (auto dest: hlq_normal_not_initial)
    then have st: "qualification_stage s2 \<in> set [asking_name, asking_email, asking_platform, completed]"
      by (rule stage_cases4)
    have "intent s2 = Some HIGH_INTENT"
      using hlq_frame(1) [of env s1] h Normal i1 by simp
    with st have "generate_response s2 = Normal s2"
      by (simp add: generate_response_def)
    then show ?thesis using h Normal et rk by (simp add: run_nodes_def)
  next
    case (Raise m s2)
    then show ?thesis using h et rk by (simp add: run_nodes_def)
  qed
  then show ?thesis by (simp only: s1_def)
qed

lemma on_lead_path_intent:
  "on_lead_path u st \<Longrightarrow> intent (classify_intent_node (begin_turn env u st)) = Some HIGH_INTENT"
  by (auto simp: on_lead_path_def)

lemma lead_turn:
  assumes "on_lead_path u st" and "engine_ok env u"
  shows "run_nodes env (begin_turn env u st)
           = handle_lead_qualification env
               (state_of (retrieve_knowledge env (classify_intent_node (begin_turn env u st))))"
  using assms(2) by (intro run_nodes_high [OF on_lead_path_intent [OF assms(1)]]) simp

lemma response_classify [simp]: "response (classify_intent_node s) = response s"
  by (simp add: classify_intent_node_def Let_def)

lemma execute_workflow_response:
  "response (fst (execute_workflow env u st))
     = (case fst (run_nodes env (begin_turn env u st)) of
          Normal s \<Rightarrow> response s
        | Raise msg s \<Rightarrow> Some (''An error occurred during processing: '' @ msg))"
  by (simp add: execute_workflow_def Let_def append_history_def
        split: prod.splits outcome.splits)

lemma turn_completed:
  assumes "qualification_stage s = completed" and "intent s = Some HIGH_INTENT"
    and ok: "engine_ok env u"
  shows "response (fst (execute_workflow env u (Some s))) = Some (thanks_text (name s))"
    and "snd (execute_workflow env u (Some s)) = []"
    and "qualification_stage (fst (execute_workflow env u (Some s))) = completed"
    and "intent (fst (execute_workflow env u (Some s))) = Some HIGH_INTENT"
    and "name (fst (execute_workflow env u (Some s))) = name s"
proof -
  have p: "on_lead_path u (Some s)"
    using assms by (simp add: on_lead_path_def stage_before_def)
  let ?s1 = "state_of (retrieve_knowledge env (classify_intent_node (begin_turn env u (Some s))))"
  have st1: "qualification_stage ?s1 = completed" using assms by (simp add: stage_before_def)
  have rn: "run_nodes env (begin_turn env u (Some s))
              = (Normal (?s1\<lparr>response := Some (thanks_text (name ?s1))\<rparr>), [])"
    using st1 by (simp add: lead_turn [OF p ok] handle_lead_qualification_def)
  show "response (fst (execute_workflow env u (Some s))) = Some (thanks_text (name s))"
    by (simp add: execute_workflow_response rn)
  show "snd (execute_workflow env u (Some s)) = []"
    by (simp add: execute_workflow_fields rn)
  show "qualification_stage (fst (execute_workflow env u (Some s))) = completed"
    using st1 by (simp add: execute_workflow_stage rn)
  show "intent (fst (execute_workflow env u (Some s))) = Some HIGH_INTENT"
    using assms by (simp add: execute_workflow_intent stage_before_def)
  show "name (fst (execute_workflow env u (Some s))) = name s"
    by (simp add: execute_workflow_fields rn)
qed

lemma lead_state_fields:
  "qualification_stage (state_of (retrieve_knowledge env (classify_intent_node (begin_turn env u st))))
     = stage_before st"
  "user_input (state_of (retrieve_knowledge env (classify_intent_node (begin_turn env u st)))) = u"
  by simp_all

lemma ew_normal:
  assumes "run_nodes env (begin_turn env u st) = (Normal s, c)"
  shows "qualification_stage (fst (execute_workflow env u st)) = qualification_stage s"
    and "name (fst (execute_workflow env u st)) = name s"
    and "email (fst (execute_workflow env u st)) = email s"
    and "platform (fst (execute_workflow env u st)) = platform s"
    and "response (fst (execute_workflow env u st)) = response s"
    and "snd (execute_workflow env u st) = c"
  using assms
  by (simp_all add: execute_workflow_stage execute_workflow_fields execute_workflow_response)

lemma ew_raise:
  assumes "run_nodes env (begin_turn env u st) = (Raise msg s, c)"
  shows "qualification_stage (fst (execute_workflow env u st)) = qualification_stage s"
    and "name (fst (execute_workflow env u st)) = name s"
    and "email (fst (execute_workflow env u st)) = email s"
    and "platform (fst (execute_workflow env u st)) = platform s"
    and "response (fst (execute_workflow env u st))
           = Some (''An error occurred during processing: '' @ msg)"
    and "snd (execute_workflow env u st) = c"
  using assms
  by (simp_all add: execute_workflow_stage execute_workflow_fields execute_workflow_response)

lemma turn_initial:
  assumes "stage_before st = initial" and "classify_intent u = HIGH_INTENT"
    and ok: "engine_ok env u"
  shows "qualification_stage (fst (execute_workflow env u st)) = asking_name"
    and "intent (fst (execute_workflow env u st)) = Some HIGH_INTENT"
    and "name (fst (execute_workflow env u st)) = name (begin_turn env u st)"
    and "email (fst (execute_workflow env u st)) = email (begin_turn env u st)"
    and "platform (fst (execute_workflow env u st)) = platform (begin_turn env u st)"
    and "response (fst (execute_workflow env u st)) = Some ask_name_text"
    and "snd (execute_workflow env u st) = []"
proof -
  have p: "on_lead_path u st" using assms by (simp add: on_lead_path_def)
  let ?s1 = "state_of (retrieve_knowledge env (classify_intent_node (begin_turn env u st)))"
  have rn: "run_nodes env (begin_turn env u st)
              = (Normal (?s1\<lparr>response := Some ask_name_text,
                               qualification_stage := asking_name\<rparr>), [])"
    using assms(1) by (simp add: lead_turn [OF p ok] handle_lead_qualification_def)
  show "qualification_stage (fst (execute_workflow env u st)) = asking_name"
    by (simp add: ew_normal [OF rn])
  show "intent (fst (execute_workflow env u st)) = Some HIGH_INTENT"
    using assms by (simp add: execute_workflow_intent)
  show "name (fst (execute_workflow env u st)) = name (begin_turn env u st)"
    by (simp add: ew_normal [OF rn])
  show "email (fst (execute_workflow env u st)) = email (begin_turn env u st)"
    by (simp add: ew_normal [OF rn])
  show "platform (fst (execute_workflow env u st)) = platform (begin_turn env u st)"
    by (simp add: ew_normal [OF rn])
  show "response (fst (execute_workflow env u st)) = Some ask_name_text"
    by (simp add: ew_normal [OF rn])
  show "snd (execute_workflow env u st) = []"
    by (simp add: ew_normal [OF rn])
qed

lemma turn_name:
  assumes "qualification_stage s = asking_name" and "intent s = Some HIGH_INTENT"
    and "truthy (extract_name u)"
    and ok: "engine_ok env u"
  shows "qualification_stage (fst (execute_workflow env u (Some s))) = asking_email"
    and "intent (fst (execute_workflow env u (Some s))) = Some HIGH_INTENT"
    and "name (fst (execute_workflow env u (Some s))) = extract_name u"
    and "email (fst (execute_workflow env u (Some s))) = email s"
    and "platform (fst (execute_workflow env u (Some s))) = platform s"
    and "snd (execute_workflow env u (Some s)) = []"
proof -
  have p: "on_lead_path u (Some s)" using assms by (simp add: on_lead_path_def stage_before_def)
  let ?s1 = "state_of (retrieve_knowledge env (classify_intent_node (begin_turn env u (Some s))))"
  have rn: "run_nodes env (begin_turn env u (Some s))
              = (Normal (?s1\<lparr>name := extract_name u,
                               response := Some (ask_email_text (str_of (extract_name u))),
                               qualification_stage := asking_email\<rparr>), [])"
    using assms(1,3)
    by (simp add: lead_turn [OF p ok] handle_lead_qualification_def stage_before_def Let_def)
  show "qualification_stage (fst (execute_workflow env u (Some s))) = asking_email"
    by (simp add: ew_normal [OF rn])
  show "intent (fst (execute_workflow env u (Some s))) = Some HIGH_INTENT"
    using assms by (simp add: execute_workflow_intent stage_before_def)
  show "name (fst (execute_workflow env u (Some s))) = extract_name u"
    by (simp add: ew_normal [OF rn])
  show "email (fst (execute_workflow env u (Some s))) = email s"
    by (simp add: ew_normal [OF rn])
  show "platform (fst (execute_workflow env u (Some s))) = platform s"
    by (simp add: ew_normal [OF rn])
  show "snd (execute_workflow env u (Some s)) = []"
    by (simp add: ew_normal [OF rn])
qed

lemma turn_email:
  assumes "qualification_stage s = asking_email" and "intent s = Some HIGH_INTENT"
    and "truthy (extract_email u)"
    and ok: "engine_ok env u"
  shows "qualification_stage (fst (execute_workflow env u (Some s))) = asking_platform"
    and "intent (fst (execute_workflow env u (Some s))) = Some HIGH_INTENT"
    and "name (fst (execute_workflow env u (Some s))) = name s"
    and "email (fst (execute_workflow env u (Some s))) = extract_email u"
    and "platform (fst (execute_workflow env u (Some s))) = platform s"
    and "snd (execute_workflow env u (Some s)) = []"
proof -
  have p: "on_lead_path u (Some s)" using assms by (simp add: on_lead_path_def stage_before_def)
  let ?s1 = "state_of (retrieve_knowledge env (classify_intent_node (begin_turn env u (Some s))))"
  have rn: "run_nodes env (begin_turn env u (Some s))
              = (Normal (?s1\<lparr>email := extract_email u,
                               response := Some ask_platform_text,
                               qualification_stage := asking_platform\<rparr>), [])"
    using assms(1,3)
    by (simp add: lead_turn [OF p ok] handle_lead_qualification_def stage_before_def Let_def)
  show "qualification_stage (fst (execute_workflow env u (Some s))) = asking_platform"
    by (simp add: ew_normal [OF rn])
  show "intent (fst (execute_workflow env u (Some s))) = Some HIGH_INTENT"
    using assms by (simp add: execute_workflow_intent stage_before_def)
  show "name (fst (execute_workflow env u (Some s))) = name s"
    by (simp add: ew_normal [OF rn])
  show "email (fst (execute_workflow env u (Some s))) = extract_email u"
    by (simp add: ew_normal [OF rn])
  show "platform (fst (execute_workflow env u (Some s))) = platform s"
    by (simp add: ew_normal [OF rn])
  show "snd (execute_workflow env u (Some s)) = []"
    by (simp add: ew_normal [OF rn])
qed

lemma turn_platform:
  assumes "qualification_stage s = asking_platform" and "intent s = Some HIGH_INTENT"
    and "truthy (extract_platform u)"
    and "lead_capture env (name s) (email s) (extract_platform u) = None"
    and ok: "engine_ok env u"
  shows "qualification_stage (fst (execute_workflow env u (Some s))) = completed"
    and "intent (fst (execute_workflow env u (Some s))) = Some HIGH_INTENT"
    and "name (fst (execute_workflow env u (Some s))) = name s"
    and "email (fst (execute_workflow env u (Some s))) = email s"
    and "platform (fst (execute_workflow env u (Some s))) = extract_platform u"
    and "response (fst (execute_workflow env u (Some s))) = Some (thanks_text (name s))"
    and "snd (execute_workflow env u (Some s)) = [(name s, email s, extract_platform u)]"
proof -
  have p: "on_lead_path u (Some s)" using assms by (simp add: on_lead_path_def stage_before_def)
  let ?s1 = "state_of (retrieve_knowledge env (classify_intent_node (begin_turn env u (Some s))))"
  let ?s2 = "?s1\<lparr>platform := extract_platform u\<rparr>"
  let ?call = "(name s, email s, extract_platform u)"
  have cap: "capture_lead env ?s2
              = (Normal (?s2\<lparr>state_context :=
                   (state_context ?s2)\<lparr>lead_captured := Some (?call, now env)\<rparr>\<rparr>), [?call])"
    using assms(4) by (simp add: capture_lead_def Let_def)
  have rn: "run_nodes env (begin_turn env u (Some s))
              = (Normal (?s2\<lparr>state_context :=
                   (state_context ?s2)\<lparr>lead_captured := Some (?call, now env)\<rparr>,
                   response := Some (thanks_text (name s)),
                   qualification_stage := completed\<rparr>), [?call])"
    using assms(1,3)
    by (simp add: lead_turn [OF p ok] handle_lead_qualification_def stage_before_def Let_def cap)
  show "qualification_stage (fst (execute_workflow env u (Some s))) = completed"
    by (simp add: ew_normal [OF rn])
  show "intent (fst (execute_workflow env u (Some s))) = Some HIGH_INTENT"
    using assms by (simp add: execute_workflow_intent stage_before_def)
  show "name (fst (execute_workflow env u (Some s))) = name s"
    by (simp add: ew_normal [OF rn])
  show "email (fst (execute_workflow env u (Some s))) = email s"
    by (simp add: ew_normal [OF rn])
  show "platform (fst (execute_workflow env u (Some s))) = extract_platform u"
    by (simp add: ew_normal [OF rn])
  show "response (fst (execute_workflow env u (Some s))) = Some (thanks_text (name s))"
    by (simp add: ew_normal [OF rn])
  show "snd (execute_workflow env u (Some s)) = [?call]"
    by (simp add: ew_normal [OF rn])
qed

lemma hlq_invariant:
  "lead_invariant s \<Longrightarrow> lead_invariant (state_of (fst (handle_lead_qualification env s)))"
  by (cases "qualification_stage s")
     (auto simp: handle_lead_qualification_def lead_invariant_def Let_def
           dest!: capture_lead_cases split: prod.splits outcome.splits)

lemma lead_invariant_cong:
  "qualification_stage s' = qualification_stage s \<Longrightarrow> name s' = name s \<Longrightarrow>
   email s' = email s \<Longrightarrow> platform s' = platform s \<Longrightarrow>
   lead_invariant s' = lead_invariant s"
  by (simp add: lead_invariant_def split: stage.splits)

lemma handlers_invariant:
  "lead_invariant (state_of (handle_inquiry env s)) = lead_invariant s"
  "lead_invariant (handle_greeting s) = lead_invariant s"
  by (rule lead_invariant_cong; simp add: handle_greeting_def)+

lemma execute_tools_invariant:
  "lead_invariant s \<Longrightarrow> lead_invariant (state_of (fst (execute_tools env s)))"
  by (simp add: execute_tools_def hlq_invariant handlers_invariant)

lemma run_nodes_invariant:
  assumes "lead_invariant s"
  shows "lead_invariant (state_of (fst (run_nodes env s)))"
proof -
  let ?r = "retrieve_knowledge env (classify_intent_node s)"
  have "lead_invariant (state_of ?r) = lead_invariant s"
    by (rule lead_invariant_cong) simp_all
  with assms have inv: "lead_invariant (state_of ?r)" by simp
  have gen: "lead_invariant (state_of (generate_response x)) = lead_invariant x" for x
    by (rule lead_invariant_cong) simp_all
  show ?thesis
  proof (cases ?r)
    case (Raise msg s1)
    with inv show ?thesis by (simp add: run_nodes_state)
  next
    case (Normal s1)
    with inv have "lead_invariant (state_of (fst (execute_tools env s1)))"
      by (simp add: execute_tools_invariant)
    with Normal gen show ?thesis
      by (cases "fst (execute_tools env s1)") (simp_all add: run_nodes_state)
  qed
qed

lemma begin_turn_invariant:
  "(case st of None \<Rightarrow> True | Some s \<Rightarrow> lead_invariant s) \<Longrightarrow> lead_invariant (begin_turn env u st)"
  by (cases st) (simp_all add: lead_invariant_def stage_before_def split: stage.splits)

lemma execute_workflow_invariant:
  assumes "case st of None \<Rightarrow> True | Some s \<Rightarrow> lead_invariant s"
  shows "lead_invariant (fst (execute_workflow env u st))"
proof -
  have "lead_invariant (fst (execute_workflow env u st))
          = lead_invariant (state_of (fst (run_nodes env (begin_turn env u st))))"
    by (rule lead_invariant_cong) (simp_all add: execute_workflow_stage execute_workflow_fields)
  then show ?thesis
    using run_nodes_invariant [OF begin_turn_invariant [OF assms]] by simp
qed

lemma run_turns_invariant:
  assumes "case st of None \<Rightarrow> True | Some s \<Rightarrow> lead_invariant s"
  shows "case fst (run_turns turns (st, calls)) of None \<Rightarrow> True | Some s \<Rightarrow> lead_invariant s"
  using assms
proof (induction turns arbitrary: st calls)
  case Nil
  then show ?case by simp
next
  case (Cons t turns)
  obtain env u where t: "t = (env, u)" by (cases t)
  obtain s c where ex: "execute_workflow env u st = (s, c)" by (cases "execute_workflow env u st")
  have "lead_invariant s"
    using execute_workflow_invariant [OF Cons.prems, of env u] ex by simp
  then have "case fst (run_turns turns (Some s, calls @ c)) of None \<Rightarrow> True
             | Some s \<Rightarrow> lead_invariant s"
    by (intro Cons.IH) simp
  then show ?case by (simp add: t ex)
qed

text \<open>
  Claim C10. In every state reached from no state by a sequence of turns, in any
  environments: in stage \<open>asking_email\<close> the name is present; in stage
  \<open>asking_platform\<close> name and email are present; in stage \<open>completed\<close> name, email and
  platform are present.
  Present means neither \<open>None\<close> nor the empty string, so the confirmation message of the
  completed stage interpolates a name that is there.
\<close>

theorem lead_fields_present:
  assumes "run_turns turns (None, []) = (Some s, calls)"
  shows "(qualification_stage s = asking_email \<longrightarrow> truthy (name s))
       \<and> (qualification_stage s = asking_platform \<longrightarrow> truthy (name s) \<and> truthy (email s))
       \<and> (qualification_stage s = completed
            \<longrightarrow> truthy (name s) \<and> truthy (email s) \<and> truthy (platform s))"
proof -
  have "case fst (run_turns turns (None, [])) of None \<Rightarrow> True | Some s \<Rightarrow> lead_invariant s"
    by (rule run_turns_invariant) simp
  with assms have "lead_invariant s" by simp
  then show ?thesis by (cases "qualification_stage s") (simp_all add: lead_invariant_def)
qed

text \<open>
  Claim C4. The stage never regresses. For every environment (also one whose capture
  function raises), every utterance and every incoming state or none, the stage after
  a turn is at least the stage before it in the order \<open>initial\<close>, \<open>asking_name\<close>,
  \<open>asking_email\<close>, \<open>asking_platform\<close>, \<open>completed\<close>; hence the same holds from the start to
  the end of every sequence of turns that threads the state, and so between any two
  points of such a sequence.
\<close>

theorem stage_never_regresses:
  "stage_rank (stage_before st)
     \<le> stage_rank (qualification_stage (fst (execute_workflow env u st)))
   \<and> stage_rank (stage_before st)
     \<le> stage_rank (stage_before (fst (run_turns turns (st, calls))))"
  by (simp add: execute_workflow_stage_mono run_turns_stage_mono)

text \<open>
  Claim C5. A turn that starts with a stage other than initial and the intent
  \<open>HIGH_INTENT\<close> ends with the intent \<open>HIGH_INTENT\<close>, whatever the utterance and the
  environment are.
\<close>

theorem high_intent_sticky:
  assumes "qualification_stage s \<noteq> initial" and "intent s = Some HIGH_INTENT"
  shows "intent (fst (execute_workflow env u (Some s))) = Some HIGH_INTENT"
  using assms by (simp add: execute_workflow_intent stage_before_def)

lemma greeting_text_truthy: "truthy (Some greeting_text)"
  by (simp add: truthy_def greeting_text_def)

lemma engine_raise:
  assumes "generate_llm_response (dumps_indent env) (py_str env) (user_input s)
             (retrieve_relevant_info (dumps env) (knowledge_data env) (user_input s) 5) = Inl e"
  shows "retrieve_knowledge env s = Raise e s"
  using assms
  by (simp add: retrieve_knowledge_def engine_response_def rag_generate_response_def Let_def)

text \<open>A turn whose knowledge retrieval raises: nothing but the intent, the entities,
  the error marker and the response changes, and the history gains the user's entry
  only.\<close>

lemma turn_engine_raises:
  assumes "generate_llm_response (dumps_indent env) (py_str env) u
             (retrieve_relevant_info (dumps env) (knowledge_data env) u 5) = Inl e"
  shows "response (fst (execute_workflow env u st))
           = Some (''An error occurred during processing: '' @ e)"
    and "qualification_stage (fst (execute_workflow env u st)) = stage_before st"
    and "snd (execute_workflow env u st) = []"
    and "conversation_history (fst (execute_workflow env u st))
           = history_before st @ [UserEntry (now env) u]"
    and "name (fst (execute_workflow env u st)) = (case st of None \<Rightarrow> None | Some s \<Rightarrow> name s)"
proof -
  let ?c = "classify_intent_node (begin_turn env u st)"
  have "retrieve_knowledge env ?c = Raise e ?c"
    using assms by (intro engine_raise) simp
  then have rn: "run_nodes env (begin_turn env u st) = (Raise e ?c, [])"
    by (simp add: run_nodes_def)
  show "response (fst (execute_workflow env u st))
           = Some (''An error occurred during processing: '' @ e)"
    by (simp add: ew_raise [OF rn])
  show "qualification_stage (fst (execute_workflow env u st)) = stage_before st"
    by (simp add: ew_raise [OF rn])
  show "snd (execute_workflow env u st) = []"
    by (simp add: ew_raise [OF rn])
  show "conversation_history (fst (execute_workflow env u st))
           = history_before st @ [UserEntry (now env) u]"
    by (simp add: execute_workflow_def rn history_before_def)
  show "name (fst (execute_workflow env u st)) = (case st of None \<Rightarrow> None | Some s \<Rightarrow> name s)"
    by (simp add: ew_raise [OF rn])
qed

text \<open>The stage moves only in a turn whose intent is \<open>HIGH_INTENT\<close>; so in every state
  reached from no state, a stage other than \<open>initial\<close> comes with that intent.\<close>

lemma execute_tools_stage_same:
  "intent s \<noteq> Some HIGH_INTENT
     \<Longrightarrow> qualification_stage (state_of (fst (execute_tools env s))) = qualification_stage s"
  by (simp add: execute_tools_def handle_greeting_def)

lemma run_nodes_stage_same:
  assumes "intent (classify_intent_node s) \<noteq> Some HIGH_INTENT"
  shows "qualification_stage (state_of (fst (run_nodes env s))) = qualification_stage s"
proof -
  let ?r = "retrieve_knowledge env (classify_intent_node s)"
  have a: "qualification_stage (state_of ?r) = qualification_stage s"
    and b: "intent (state_of ?r) \<noteq> Some HIGH_INTENT"
    using assms by simp_all
  show ?thesis
  proof (cases ?r)
    case (Raise msg s1)
    with a show ?thesis by (simp add: run_nodes_state)
  next
    case (Normal s1)
    with a b execute_tools_stage_same [of s1 env] show ?thesis
      by (cases "fst (execute_tools env s1)") (simp_all add: run_nodes_state)
  qed
qed

lemma moved_stage_high:
  assumes "qualification_stage (fst (execute_workflow env u st)) \<noteq> stage_before st"
  shows "intent (fst (execute_workflow env u st)) = Some HIGH_INTENT"
proof (rule ccontr)
  assume n: "intent (fst (execute_workflow env u st)) \<noteq> Some HIGH_INTENT"
  then have "intent (classify_intent_node (begin_turn env u st)) \<noteq> Some HIGH_INTENT"
    by (simp add: execute_workflow_fields run_nodes_intent)
  from run_nodes_stage_same [OF this, of env] assms show False
    by (simp add: execute_workflow_stage)
qed

lemma execute_workflow_intent_invariant:
  assumes "case st of None \<Rightarrow> True
           | Some s \<Rightarrow> qualification_stage s \<noteq> initial \<longrightarrow> intent s = Some HIGH_INTENT"
    and "qualification_stage (fst (execute_workflow env u st)) \<noteq> initial"
  shows "intent (fst (execute_workflow env u st)) = Some HIGH_INTENT"
proof (cases "stage_before st = initial")
  case True
  with assms(2) show ?thesis by (intro moved_stage_high) simp
next
  case False
  with assms(1) show ?thesis
    by (cases st) (simp_all add: execute_workflow_intent stage_before_def)
qed

lemma run_turns_intent_invariant:
  assumes "case st of None \<Rightarrow> True
           | Some s \<Rightarrow> qualification_stage s \<noteq> initial \<longrightarrow> intent s = Some HIGH_INTENT"
  shows "case fst (run_turns turns (st, calls)) of None \<Rightarrow> True
         | Some s \<Rightarrow> qualification_stage s \<noteq> initial \<longrightarrow> intent s = Some HIGH_INTENT"
  using assms
proof (induction turns arbitrary: st calls)
  case Nil
  then show ?case by simp
next
  case (Cons t turns)
  obtain env u where t: "t = (env, u)" by (cases t)
  obtain s c where ex: "execute_workflow env u st = (s, c)" by (cases "execute_workflow env u st")
  have "qualification_stage s \<noteq> initial \<longrightarrow> intent s = Some HIGH_INTENT"
    using execute_workflow_intent_invariant [OF Cons.prems, of env u] ex by simp
  then have "case fst (run_turns turns (Some s, calls @ c)) of None \<Rightarrow> True
             | Some s \<Rightarrow> qualification_stage s \<noteq> initial \<longrightarrow> intent s = Some HIGH_INTENT"
    by (intro Cons.IH) simp
  then show ?case by (simp add: t ex)
qed

lemma reached_intent:
  assumes "run_turns turns (None, []) = (Some s, calls)"
    and "qualification_stage s \<noteq> initial"
  shows "intent s = Some HIGH_INTENT"
proof -
  have "case fst (run_turns turns (None, [])) of None \<Rightarrow> True
        | Some s \<Rightarrow> qualification_stage s \<noteq> initial \<longrightarrow> intent s = Some HIGH_INTENT"
    by (rule run_turns_intent_invariant) simp
  with assms show ?thesis by simp
qed

lemma scenario_facts:
  "classify_intent ''I want to try'' = HIGH_INTENT"
  "extract_name ''John'' = Some ''John''"
  "extract_email ''john@example.com'' = Some ''john@example.com''"
  "extract_platform ''YouTube'' = Some ''Youtube''"
  by code_simp+

lemma run_turns_step:
  "run_turns ((env, u) # rest) (st, calls)
     = run_turns rest (Some (fst (execute_workflow env u st)),
                       calls @ snd (execute_workflow env u st))"
  by (simp add: split_beta)

lemma scenario_run:
  assumes "engine_ok e1 ''I want to try''" and "engine_ok e2 ''John''"
    and "engine_ok e3 ''john@example.com''" and "engine_ok e4 ''YouTube''"
    and "lead_capture e4 (Some ''John'') (Some ''john@example.com'') (Some ''Youtube'') = None"
  shows "\<exists>s. run_turns [(e1, ''I want to try''), (e2, ''John''), (e3, ''john@example.com''),
                         (e4, ''YouTube'')] (None, [])
               = (Some s, [(Some ''John'', Some ''john@example.com'', Some ''Youtube'')])
             \<and> qualification_stage s = completed
             \<and> name s = Some ''John'' \<and> email s = Some ''john@example.com''
             \<and> platform s = Some ''Youtube''"
proof -
  define s1 where "s1 = fst (execute_workflow e1 ''I want to try'' None)"
  define s2 where "s2 = fst (execute_workflow e2 ''John'' (Some s1))"
  define s3 where "s3 = fst (execute_workflow e3 ''john@example.com'' (Some s2))"
  define s4 where "s4 = fst (execute_workflow e4 ''YouTube'' (Some s3))"
  have i: "stage_before None = initial" by (simp add: stage_before_def)
  note t1 = turn_initial [OF i scenario_facts(1) assms(1), folded s1_def]
  have f1: "qualification_stage s1 = asking_name" "intent s1 = Some HIGH_INTENT"
    "email s1 = None" "platform s1 = None"
    "snd (execute_workflow e1 ''I want to try'' None) = []"
    using t1 by simp_all
  have n: "truthy (extract_name ''John'')" by (simp add: scenario_facts truthy_def)
  note t2 = turn_name [OF f1(1,2) n assms(2), folded s2_def]
  have f2: "qualification_stage s2 = asking_email" "intent s2 = Some HIGH_INTENT"
    "name s2 = Some ''John''" "platform s2 = None"
    "snd (execute_workflow e2 ''John'' (Some s1)) = []"
    using t2 f1 by (simp_all add: scenario_facts)
  have e: "truthy (extract_email ''john@example.com'')" by (simp add: scenario_facts truthy_def)
  note t3 = turn_email [OF f2(1,2) e assms(3), folded s3_def]
  have f3: "qualification_stage s3 = asking_platform" "intent s3 = Some HIGH_INTENT"
    "name s3 = Some ''John''" "email s3 = Some ''john@example.com''"
    "snd (execute_workflow e3 ''john@example.com'' (Some s2)) = []"
    using t3 f2 by (simp_all add: scenario_facts)
  have p: "truthy (extract_platform ''YouTube'')" by (simp add: scenario_facts truthy_def)
  have c: "lead_capture e4 (name s3) (email s3) (extract_platform ''YouTube'') = None"
    using assms(5) by (simp add: f3 scenario_facts)
  note t4 = turn_platform [OF f3(1,2) p c assms(4), folded s4_def]
  have f4: "qualification_stage s4 = completed"
    "name s4 = Some ''John''" "email s4 = Some ''john@example.com''"
    "platform s4 = Some ''Youtube''"
    "snd (execute_workflow e4 ''YouTube'' (Some s3))
       = [(Some ''John'', Some ''john@example.com'', Some ''Youtube'')]"
    using t4 f3 by (simp_all add: scenario_facts)
  have "run_turns [(e1, ''I want to try''), (e2, ''John''), (e3, ''john@example.com''),
                   (e4, ''YouTube'')] (None, [])
          = (Some s4, [(Some ''John'', Some ''john@example.com'', Some ''Youtube'')])"
    unfolding run_turns_step run_turns.simps(1)
    by (simp add: f1(5) f2(5) f3(5) f4(5) s1_def [symmetric] s2_def [symmetric]
          s3_def [symmetric] s4_def [symmetric])
  with f4 show ?thesis by blast
qed

lemma sample_capture:
  "lead_capture sample_env n e p = None"
  by (simp add: sample_env_def mock_lead_capture_def)

lemma sample_kb_formats: "kb_formats sample_kb"
  by code_simp

lemma sample_engine_ok:
  "engine_ok sample_env ''I want to try''"
  "engine_ok sample_env ''John''"
  "engine_ok sample_env ''john@example.com''"
  "engine_ok sample_env ''YouTube''"
  by (rule kb_formats_engine_ok, simp add: sample_env_def sample_kb_formats)+

lemma numeric_engine_ok:
  "engine_ok numeric_features_env ''I want to try''"
  "engine_ok numeric_features_env ''John''"
  "engine_ok numeric_features_env ''john@example.com''"
  "engine_ok numeric_features_env ''YouTube''"
  by code_simp+

lemma numeric_capture:
  "lead_capture numeric_features_env n e p = None"
  by (simp add: numeric_features_env_def sample_env_def mock_lead_capture_def)

lemma numeric_pricing_raises:
  "generate_llm_response (dumps_indent numeric_features_env) (py_str numeric_features_env)
     ''pricing''
     (retrieve_relevant_info (dumps numeric_features_env) (knowledge_data numeric_features_env)
        ''pricing'' 5)
   = Inl ''sequence item 0: expected str instance, int found''"
  by code_simp

theorem scenario_stopped_by_error:
  "qualification_stage (scenario_state john_features_env) = asking_email
   \<and> name (scenario_state john_features_env) = Some ''Youtube''
   \<and> snd (run_turns (scenario_turns john_features_env) (None, [])) = []"
  by code_simp

text \<open>
  Claim C1 (scenario C), amended. The four turns "I want to try", "John",
  "john@example.com", "YouTube", run from no previous state in any environments in
  which the answer engine returns for these utterances and the capture function
  returns when called with these values, end in stage \<open>completed\<close> with name "John",
  email "john@example.com" and platform "Youtube"; over the four turns the capture
  function is called exactly once, with exactly these three values. The claim as
  stated fails over a knowledge base with a plan named "john" whose features are
  numbers: the turns "John" and "john@example.com" end in the error branch, and the
  run ends in stage \<open>asking_email\<close> with the name "Youtube" and no call of the capture
  function.
\<close>

theorem scenario_c_completes:
  assumes "engine_ok e1 ''I want to try''" and "engine_ok e2 ''John''"
    and "engine_ok e3 ''john@example.com''" and "engine_ok e4 ''YouTube''"
    and "lead_capture e4 (Some ''John'') (Some ''john@example.com'') (Some ''Youtube'') = None"
  shows "\<exists>s. run_turns [(e1, ''I want to try''), (e2, ''John''), (e3, ''john@example.com''),
                         (e4, ''YouTube'')] (None, [])
               = (Some s, [(Some ''John'', Some ''john@example.com'', Some ''Youtube'')])
             \<and> qualification_stage s = completed
             \<and> name s = Some ''John'' \<and> email s = Some ''john@example.com''
             \<and> platform s = Some ''Youtube''"
  using assms by (rule scenario_run)

theorem scenario_c_completes_witness:
  "engine_ok sample_env ''I want to try'' \<and> engine_ok sample_env ''John''
   \<and> engine_ok sample_env ''john@example.com'' \<and> engine_ok sample_env ''YouTube''
   \<and> lead_capture sample_env (Some ''John'') (Some ''john@example.com'') (Some ''Youtube'') = None
   \<and> (\<exists>s. run_turns [(sample_env, ''I want to try''), (sample_env, ''John''),
                      (sample_env, ''john@example.com''), (sample_env, ''YouTube'')] (None, [])
             = (Some s, [(Some ''John'', Some ''john@example.com'', Some ''Youtube'')])
           \<and> qualification_stage s = completed
           \<and> name s = Some ''John'' \<and> email s = Some ''john@example.com''
           \<and> platform s = Some ''Youtube'')"
  using scenario_c_completes [OF sample_engine_ok sample_capture] sample_engine_ok sample_capture
  by simp

theorem lead_fields_present_witness:
  "\<exists>s calls. run_turns [(sample_env, ''I want to try''), (sample_env, ''John''),
                      (sample_env, ''john@example.com''), (sample_env, ''YouTube'')] (None, [])
             = (Some s, calls)
           \<and> qualification_stage s = completed
           \<and> truthy (name s) \<and> truthy (email s) \<and> truthy (platform s)"
proof -
  obtain s where r: "run_turns [(sample_env, ''I want to try''), (sample_env, ''John''),
                      (sample_env, ''john@example.com''), (sample_env, ''YouTube'')] (None, [])
             = (Some s, [(Some ''John'', Some ''john@example.com'', Some ''Youtube'')])"
    and c: "qualification_stage s = completed"
    using scenario_run [OF sample_engine_ok sample_capture] by blast
  from lead_fields_present [OF r] c
  have "truthy (name s) \<and> truthy (email s) \<and> truthy (platform s)" by simp
  with r c show ?thesis by blast
qed

theorem high_intent_sticky_witness:
  "qualification_stage (qualifying_state asking_email) \<noteq> initial
   \<and> intent (qualifying_state asking_email) = Some HIGH_INTENT
   \<and> classify_intent ''hello, what does the Pro plan cost?'' = GREET
   \<and> intent (fst (execute_workflow sample_env ''hello, what does the Pro plan cost?''
                    (Some (qualifying_state asking_email)))) = Some HIGH_INTENT"
proof -
  have a: "qualification_stage (qualifying_state asking_email) \<noteq> initial"
    by (simp add: qualifying_state_def)
  have b: "intent (qualifying_state asking_email) = Some HIGH_INTENT"
    by (simp add: qualifying_state_def)
  have c: "classify_intent ''hello, what does the Pro plan cost?'' = GREET"
    by code_simp
  from high_intent_sticky [OF a b] a b c show ?thesis by simp
qed

lemma numeric_scenario:
  "run_turns (scenario_turns numeric_features_env) (None, [])
     = (Some (scenario_state numeric_features_env),
        [(Some ''John'', Some ''john@example.com'', Some ''Youtube'')])"
  "qualification_stage (scenario_state numeric_features_env) = completed"
  "name (scenario_state numeric_features_env) = Some ''John''"
proof -
  obtain s where r: "run_turns (scenario_turns numeric_features_env) (None, [])
             = (Some s, [(Some ''John'', Some ''john@example.com'', Some ''Youtube'')])"
    and c: "qualification_stage s = completed" and n: "name s = Some ''John''"
    using scenario_run [OF numeric_engine_ok numeric_capture]
    unfolding scenario_turns_def by blast
  have e: "scenario_state numeric_features_env = s"
    by (simp add: scenario_state_def r)
  show "run_turns (scenario_turns numeric_features_env) (None, [])
     = (Some (scenario_state numeric_features_env),
        [(Some ''John'', Some ''john@example.com'', Some ''Youtube'')])"
    using r e by simp
  show "qualification_stage (scenario_state numeric_features_env) = completed"
    using c e by simp
  show "name (scenario_state numeric_features_env) = Some ''John''"
    using n e by simp
qed

theorem confirmation_lost_to_error:
  "fst (run_turns (scenario_turns numeric_features_env) (None, []))
     = Some (scenario_state numeric_features_env)
   \<and> qualification_stage (scenario_state numeric_features_env) = completed
   \<and> response (fst (execute_workflow numeric_features_env ''pricing''
                      (Some (scenario_state numeric_features_env))))
       = Some ''An error occurred during processing: sequence item 0: expected str instance, int found''
   \<and> response (fst (execute_workflow numeric_features_env ''pricing''
        (Some (fst (execute_workflow numeric_features_env ''pricing''
                      (Some (scenario_state numeric_features_env)))))))
       = Some ''An error occurred during processing: sequence item 0: expected str instance, int found''
   \<and> Some ''An error occurred during processing: sequence item 0: expected str instance, int found''
       \<noteq> Some (thanks_text (name (scenario_state numeric_features_env)))"
proof -
  note r = turn_engine_raises(1) [OF numeric_pricing_raises]
  have d: "Some ''An error occurred during processing: sequence item 0: expected str instance, int found''
       \<noteq> Some (thanks_text (name (scenario_state numeric_features_env)))"
    by (simp add: thanks_text_def)
  from numeric_scenario(1,2) r [of "Some (scenario_state numeric_features_env)"]
    r [of "Some (fst (execute_workflow numeric_features_env ''pricing''
                      (Some (scenario_state numeric_features_env))))"] d
  show ?thesis by simp
qed

text \<open>
  Claim C2, amended. For every state reached from no state by a sequence of turns
  whose stage is \<open>completed\<close>, two turns in a row, with any utterances for which the
  answer engine returns in the turn's environment, both answer with the confirmation
  message for the stored name, neither calls the capture function, and the stage
  stays \<open>completed\<close>. The claim as stated, for every utterance, fails when the knowledge
  base lists the features of a plan as numbers: the utterance "pricing" is answered
  with the error message, twice.
\<close>

theorem confirmation_idempotent:
  assumes "run_turns turns (None, []) = (Some s, calls)"
    and "qualification_stage s = completed"
    and "engine_ok e1 u1" and "engine_ok e2 u2"
  shows "response (fst (execute_workflow e1 u1 (Some s))) = Some (thanks_text (name s))
       \<and> snd (execute_workflow e1 u1 (Some s)) = []
       \<and> response (fst (execute_workflow e2 u2 (Some (fst (execute_workflow e1 u1 (Some s))))))
           = Some (thanks_text (name s))
       \<and> snd (execute_workflow e2 u2 (Some (fst (execute_workflow e1 u1 (Some s))))) = []
       \<and> qualification_stage
           (fst (execute_workflow e2 u2 (Some (fst (execute_workflow e1 u1 (Some s))))))
           = completed"
proof -
  have i: "intent s = Some HIGH_INTENT"
    using assms(1,2) by (intro reached_intent) simp_all
  note a = turn_completed [OF assms(2) i assms(3)]
  note b = turn_completed [OF a(3) a(4) assms(4)]
  from a b show ?thesis by simp
qed

theorem confirmation_idempotent_witness:
  "run_turns (scenario_turns numeric_features_env) (None, [])
     = (Some (scenario_state numeric_features_env),
        [(Some ''John'', Some ''john@example.com'', Some ''Youtube'')])
   \<and> qualification_stage (scenario_state numeric_features_env) = completed
   \<and> engine_ok numeric_features_env ''John'' \<and> engine_ok numeric_features_env ''YouTube''
   \<and> response (fst (execute_workflow numeric_features_env ''John''
                      (Some (scenario_state numeric_features_env))))
       = Some (thanks_text (Some ''John''))
   \<and> snd (execute_workflow numeric_features_env ''John''
            (Some (scenario_state numeric_features_env))) = []
   \<and> response (fst (execute_workflow numeric_features_env ''YouTube''
        (Some (fst (execute_workflow numeric_features_env ''John''
                      (Some (scenario_state numeric_features_env)))))))
       = Some (thanks_text (Some ''John''))
   \<and> snd (execute_workflow numeric_features_env ''YouTube''
        (Some (fst (execute_workflow numeric_features_env ''John''
                      (Some (scenario_state numeric_features_env)))))) = []"
proof -
  note c = confirmation_idempotent [OF numeric_scenario(1,2) numeric_engine_ok(2)
             numeric_engine_ok(4)]
  from c numeric_scenario numeric_engine_ok(2,4) show ?thesis by simp
qed

lemma run_nodes_history:
  "conversation_history (state_of (fst (run_nodes env s))) = conversation_history s"
proof -
  let ?r = "retrieve_knowledge env (classify_intent_node s)"
  have h: "conversation_history (state_of ?r) = conversation_history s" by simp
  show ?thesis
  proof (cases ?r)
    case (Raise msg s1)
    with h show ?thesis by (simp add: run_nodes_state)
  next
    case (Normal s1)
    with h execute_tools_frame(2) [of env s1] show ?thesis
      by (cases "fst (execute_tools env s1)") (simp_all add: run_nodes_state)
  qed
qed

text \<open>What every turn does to the history: it keeps what it found and appends the
  user's entry; after a run of the nodes without an exception the response, if not
  empty, follows as the agent's entry; after an exception nothing follows.\<close>

lemma history_after_turn:
  "prefix (history_before st @ [UserEntry (now env) u])
     (conversation_history (fst (execute_workflow env u st)))
   \<and> (case fst (run_nodes env (begin_turn env u st)) of
        Normal s \<Rightarrow>
          conversation_history (fst (execute_workflow env u st))
            = history_before st @ [UserEntry (now env) u]
              @ (if truthy (response (fst (execute_workflow env u st)))
                 then [AgentEntry (now env) (str_of (response (fst (execute_workflow env u st))))
                         (intent (fst (execute_workflow env u st)))
                         (qualification_stage (fst (execute_workflow env u st)))]
                 else [])
      | Raise msg s \<Rightarrow>
          conversation_history (fst (execute_workflow env u st))
            = history_before st @ [UserEntry (now env) u]
          \<and> response (fst (execute_workflow env u st))
            = Some (''An error occurred during processing: '' @ msg))"
proof -
  obtain r c where rn: "run_nodes env (begin_turn env u st) = (r, c)"
    by (cases "run_nodes env (begin_turn env u st)")
  have h: "conversation_history (state_of r) = history_before st @ [UserEntry (now env) u]"
    using run_nodes_history [of env "begin_turn env u st"] rn
    by (simp add: history_before_def)
  show ?thesis
  proof (cases r)
    case (Normal s)
    with rn h show ?thesis
      by (simp add: execute_workflow_def Let_def append_history_def)
  next
    case (Raise msg s)
    with rn h show ?thesis
      by (simp add: execute_workflow_def Let_def append_history_def)
  qed
qed

text \<open>
  Claim C8. Every turn is to append the user's utterance to the transcript and, when
  it ends with a response set, the response after it. The code at the failing input, a
  first turn "pricing" over a knowledge base that lists the features of a plan as
  numbers: the turn ends with the response set to the error message, and the
  transcript holds the user's entry and no entry of the agent.
\<close>

theorem error_response_not_recorded:
  "response (fst (execute_workflow numeric_features_env ''pricing'' None))
     = Some ''An error occurred during processing: sequence item 0: expected str instance, int found''
   \<and> truthy (response (fst (execute_workflow numeric_features_env ''pricing'' None)))
   \<and> conversation_history (fst (execute_workflow numeric_features_env ''pricing'' None))
     = [UserEntry (now numeric_features_env) ''pricing'']"
proof -
  note r = turn_engine_raises [OF numeric_pricing_raises, of None]
  from r(1) r(4) show ?thesis by (simp add: truthy_def history_before_def)
qed

end
